theory Spec2Isabelle
  imports Main
begin

section \<open>Exceptions\<close>

text \<open>
  Every exception the modelled code can raise is a value. The four classes of the
  \<^verbatim>\<open>openai\<close> package that \<^verbatim>\<open>app/services/llm.py\<close> names are kept apart, because the
  retry decorator and the \<^verbatim>\<open>except\<close> clause of \<^verbatim>\<open>call\<close> test different ones.
  \<open>APIError\<close> stands for every API error that is neither a rate limit nor a timeout,
  \<open>OpenAIError\<close> for an error of the package that is not an API error, and
  \<open>OtherException\<close> for whatever else a tool, the memory store or the graph run
  raises.
\<close>

datatype py_exc =
    RateLimitError
  | APITimeoutError
  | APIError
  | OpenAIError
  | RuntimeError string
  | ValueError
  | IndexError
  | KeyError string
  | AttributeError
  | TypeError
  | OtherException string

text \<open>
  The class hierarchy of the \<^verbatim>\<open>openai\<close> package, as \<^verbatim>\<open>isinstance\<close> sees it:
  \<^verbatim>\<open>RateLimitError\<close> and \<^verbatim>\<open>APITimeoutError\<close> derive from \<^verbatim>\<open>APIError\<close>, which derives
  from \<^verbatim>\<open>OpenAIError\<close>.
\<close>

fun is_APIError :: "py_exc \<Rightarrow> bool" where
  "is_APIError RateLimitError = True"
| "is_APIError APITimeoutError = True"
| "is_APIError APIError = True"
| "is_APIError _ = False"

fun is_OpenAIError :: "py_exc \<Rightarrow> bool" where
  "is_OpenAIError OpenAIError = True"
| "is_OpenAIError e = is_APIError e"

text \<open>\<^verbatim>\<open>retry_if_exception_type((RateLimitError, APITimeoutError, APIError))\<close>\<close>

definition retry_if_exception_type :: "py_exc \<Rightarrow> bool" where
  "retry_if_exception_type e \<longleftrightarrow>
     e = RateLimitError \<or> e = APITimeoutError \<or> is_APIError e"


section \<open>The model registry\<close>

text \<open>One entry of \<^verbatim>\<open>LLMRegistry.LLMS\<close>: a dict with the keys \<^verbatim>\<open>"name"\<close> and \<^verbatim>\<open>"llm"\<close>.\<close>

record 'm entry =
  name :: string
  llm :: 'm

text \<open>
  The registry of the source: three entries, in this order. A model handle is
  represented by the model name its \<^verbatim>\<open>ChatOpenAI\<close> object was built with.
\<close>

datatype chat_model = ChatOpenAI string

definition LLMS :: "chat_model entry list" where
  "LLMS =
     [\<lparr>name = ''gpt-5-mini'', llm = ChatOpenAI ''gpt-5-mini''\<rparr>,
      \<lparr>name = ''gpt-4o'', llm = ChatOpenAI ''gpt-4o''\<rparr>,
      \<lparr>name = ''gpt-4o-mini'', llm = ChatOpenAI ''gpt-4o-mini''\<rparr>]"

text \<open>
  \<^verbatim>\<open>LLMRegistry.get\<close>, over any registry list. The \<^verbatim>\<open>for\<close> loop returns the model
  of the first entry whose name matches; after the loop \<^verbatim>\<open>cls.LLMS[0]\<close> is read, which
  raises \<^verbatim>\<open>IndexError\<close> on an empty list.
\<close>

fun get_loop :: "'m entry list \<Rightarrow> string \<Rightarrow> 'm option" where
  "get_loop [] model_name = None"
| "get_loop (e # es) model_name =
     (if name e = model_name then Some (llm e) else get_loop es model_name)"

definition LLMRegistry_get :: "'m entry list \<Rightarrow> string \<Rightarrow> py_exc + 'm" where
  "LLMRegistry_get registry model_name =
     (case get_loop registry model_name of
        Some m \<Rightarrow> Inr m
      | None \<Rightarrow> (case registry of [] \<Rightarrow> Inl IndexError | e # _ \<Rightarrow> Inr (llm e)))"

definition get_all_names :: "'m entry list \<Rightarrow> string list" where
  "get_all_names registry = map name registry"

text \<open>Python's \<^verbatim>\<open>list.index\<close>: the first position of the value, \<^verbatim>\<open>ValueError\<close> when absent.\<close>

fun list_index :: "'a list \<Rightarrow> 'a \<Rightarrow> py_exc + nat" where
  "list_index [] x = Inl ValueError"
| "list_index (y # ys) x =
     (if y = x then Inr 0
      else (case list_index ys x of Inl e \<Rightarrow> Inl e | Inr i \<Rightarrow> Inr (Suc i)))"


section \<open>The resilience layer\<close>

text \<open>The two mutable attributes of an \<^verbatim>\<open>LLMService\<close>: \<^verbatim>\<open>_llm\<close> and \<^verbatim>\<open>_current_model_index\<close>.\<close>

record 'm llm_service =
  svc_llm :: "'m option"
  current_model_index :: nat

text \<open>
  \<^verbatim>\<open>LLMService.__init__\<close>. Inside the \<^verbatim>\<open>try\<close>, \<^verbatim>\<open>_llm\<close> is assigned first and the
  index second; only \<^verbatim>\<open>ValueError\<close> is caught, and the handler reads \<^verbatim>\<open>LLMS[0]\<close>.
  An exception that leaves the constructor leaves no instance.
\<close>

definition LLMService_init :: "'m entry list \<Rightarrow> string \<Rightarrow> py_exc + 'm llm_service" where
  "LLMService_init registry DEFAULT_LLM_MODEL =
     (case LLMRegistry_get registry DEFAULT_LLM_MODEL of
        Inl e \<Rightarrow>
          (if e = ValueError
           then (case registry of
                   [] \<Rightarrow> Inl IndexError
                 | e0 # _ \<Rightarrow> Inr \<lparr>svc_llm = Some (llm e0), current_model_index = 0\<rparr>)
           else Inl e)
      | Inr m \<Rightarrow>
          (case list_index (get_all_names registry) DEFAULT_LLM_MODEL of
             Inr i \<Rightarrow> Inr \<lparr>svc_llm = Some m, current_model_index = i\<rparr>
           | Inl e \<Rightarrow>
               (if e = ValueError
                then (case registry of
                        [] \<Rightarrow> Inl IndexError
                      | e0 # _ \<Rightarrow> Inr \<lparr>svc_llm = Some (llm e0), current_model_index = 0\<rparr>)
                else Inl e)))"

text \<open>
  What the layer does to the outside world, in order: a model invocation (the handle
  and the number of invocations made before it), a sleep of the retry decorator (in
  seconds), and the three log lines of \<^verbatim>\<open>call\<close> and \<^verbatim>\<open>_switch_to_next_model\<close>.
\<close>

datatype 'm event =
    is_Invoke: Invoke 'm nat
  | is_Sleep: Sleep (seconds: nat)
  | is_failed: model_failed_exhausted_retries string
  | is_switch: switching_model_fallback nat string
  | model_switch_failed

text \<open>
  \<^verbatim>\<open>_switch_to_next_model\<close>. The modulus raises \<^verbatim>\<open>ZeroDivisionError\<close> on an empty
  registry; the \<^verbatim>\<open>except Exception\<close> turns that into the result \<^verbatim>\<open>False\<close>.
\<close>

definition switch_to_next_model ::
  "'m entry list \<Rightarrow> 'm llm_service \<Rightarrow> bool \<times> 'm llm_service \<times> 'm event list" where
  "switch_to_next_model registry svc =
     (if length registry = 0 then (False, svc, [model_switch_failed])
      else
        let next_index = (current_model_index svc + 1) mod length registry;
            next_model_entry = registry ! next_index
        in (True,
            svc\<lparr>current_model_index := next_index, svc_llm := Some (llm next_model_entry)\<rparr>,
            [switching_model_fallback (current_model_index svc) (name next_model_entry)]))"

text \<open>
  The backends are the environment: \<open>W m msgs t\<close> is what invoking handle \<open>m\<close> on the
  messages \<open>msgs\<close> yields when it is the \<open>t\<close>-th invocation made so far. The counter
  \<open>t\<close> lets a backend answer differently from one attempt to the next.
\<close>

type_synonym ('m, 'msg, 'r) world = "'m \<Rightarrow> 'msg list \<Rightarrow> nat \<Rightarrow> py_exc + 'r"

text \<open>The body of \<^verbatim>\<open>_call_with_retry\<close>: one attempt.\<close>

definition call_body ::
  "('m, 'msg, 'r) world \<Rightarrow> 'm llm_service \<Rightarrow> 'msg list \<Rightarrow> nat
     \<Rightarrow> (py_exc + 'r) \<times> nat \<times> 'm event list" where
  "call_body W svc messages clock =
     (case svc_llm svc of
        None \<Rightarrow> (Inl (RuntimeError ''LLM not initialized''), clock, [])
      | Some m \<Rightarrow> (W m messages clock, Suc clock, [Invoke m clock]))"

text \<open>
  \<^verbatim>\<open>wait_exponential(multiplier, min, max)\<close> of the \<^verbatim>\<open>tenacity\<close> package, with its
  default base 2: after the failed attempt number \<open>k\<close> (counted from 1) the wait is
  \<^verbatim>\<open>max(max(0, min), min(multiplier * 2 ** (k - 1), max))\<close>.
\<close>

definition wait_exponential :: "nat \<Rightarrow> nat \<Rightarrow> nat \<Rightarrow> nat \<Rightarrow> nat" where
  "wait_exponential multiplier mn mx attempt_number =
     max (max 0 mn) (min (multiplier * 2 ^ (attempt_number - 1)) mx)"

text \<open>
  The level handed to a log call: an integer or, as \<^verbatim>\<open>llm.py\<close> writes it, a string.
\<close>

datatype log_level = LevelNo int | LevelName string

text \<open>
  \<^verbatim>\<open>logger.log(level, ...)\<close> of the service's logger. \<^verbatim>\<open>get_logger\<close> returns a
  \<^verbatim>\<open>structlog\<close> logger whose wrapper class is the filtering bound logger; its \<^verbatim>\<open>log\<close>
  begins with \<^verbatim>\<open>if level < min_level\<close>, which raises \<^verbatim>\<open>TypeError\<close> when the level
  is a string and returns otherwise.
\<close>

definition logger_log :: "log_level \<Rightarrow> py_exc option" where
  "logger_log level = (case level of LevelName s \<Rightarrow> Some TypeError | LevelNo l \<Rightarrow> None)"

text \<open>
  \<^verbatim>\<open>before_sleep_log(logger, log_level)\<close> of \<^verbatim>\<open>tenacity\<close>: the hook it builds
  calls \<^verbatim>\<open>logger.log(log_level, ...)\<close>. The value is the exception the hook raises,
  if any.
\<close>

definition before_sleep_log :: "log_level \<Rightarrow> py_exc option" where
  "before_sleep_log log_level = logger_log log_level"

text \<open>
  The retry decorator around \<^verbatim>\<open>_call_with_retry\<close>, as \<^verbatim>\<open>tenacity\<close> runs it: attempts
  are numbered from 1; an exception outside the retried classes is raised at once; an
  exception inside them is raised again (\<^verbatim>\<open>reraise=True\<close>) when
  \<^verbatim>\<open>stop_after_attempt\<close> says stop, that is when the attempt number has reached
  \<^verbatim>\<open>MAX_LLM_CALL_RETRIES\<close>; otherwise the decorator computes the wait, calls the
  \<^verbatim>\<open>before_sleep\<close> hook, whose exception leaves the loop, and only then sleeps and
  tries again.
\<close>

function retry_loop ::
  "('m, 'msg, 'r) world \<Rightarrow> int \<Rightarrow> log_level \<Rightarrow> 'm llm_service \<Rightarrow> 'msg list \<Rightarrow> nat \<Rightarrow> nat
     \<Rightarrow> (py_exc + 'r) \<times> nat \<times> 'm event list" where
  "retry_loop W MAX_LLM_CALL_RETRIES log_level svc messages attempt_number clock =
     (case call_body W svc messages clock of
        (Inr r, clock', evs) \<Rightarrow> (Inr r, clock', evs)
      | (Inl e, clock', evs) \<Rightarrow>
          if \<not> retry_if_exception_type e then (Inl e, clock', evs)
          else if int attempt_number \<ge> MAX_LLM_CALL_RETRIES then (Inl e, clock', evs)
          else
            (case before_sleep_log log_level of
               Some hook_error \<Rightarrow> (Inl hook_error, clock', evs)
             | None \<Rightarrow>
                 (case retry_loop W MAX_LLM_CALL_RETRIES log_level svc messages
                         (Suc attempt_number) clock' of
                    (res, clock'', evs') \<Rightarrow>
                      (res, clock'',
                       evs @ Sleep (wait_exponential 1 2 10 attempt_number) # evs'))))"
  by pat_completeness auto
termination
  by (relation "measure (\<lambda>(W, n, lvl, svc, msgs, k, clock). nat (n - int k))") auto

text \<open>
  \<^verbatim>\<open>_call_with_retry\<close> under its decorator: the budget is the setting, the hook is
  \<^verbatim>\<open>before_sleep_log(logger, "WARNING")\<close>, the first attempt has number 1.
\<close>

definition call_with_retry ::
  "('m, 'msg, 'r) world \<Rightarrow> int \<Rightarrow> 'm llm_service \<Rightarrow> 'msg list \<Rightarrow> nat
     \<Rightarrow> (py_exc + 'r) \<times> nat \<times> 'm event list" where
  "call_with_retry W MAX_LLM_CALL_RETRIES svc messages clock =
     retry_loop W MAX_LLM_CALL_RETRIES (LevelName ''WARNING'') svc messages 1 clock"

text \<open>
  \<^verbatim>\<open>LLMService.call\<close>. The \<^verbatim>\<open>while\<close> loop is the recursion on \<open>models_tried\<close>. The
  handler catches \<^verbatim>\<open>OpenAIError\<close> only; its log line reads
  \<^verbatim>\<open>LLMS[self._current_model_index]\<close>, which raises \<^verbatim>\<open>IndexError\<close> out of range.
  The service is returned with every result, since an exception leaves the mutated
  object behind.
\<close>

definition exhausted_message :: string where
  "exhausted_message = ''Failed to get response from any LLM after exhausting all options.''"

function call_loop ::
  "('m, 'msg, 'r) world \<Rightarrow> 'm entry list \<Rightarrow> int \<Rightarrow> 'msg list \<Rightarrow> nat \<Rightarrow> nat
     \<Rightarrow> 'm llm_service \<Rightarrow> nat
     \<Rightarrow> (py_exc + 'r) \<times> 'm llm_service \<times> nat \<times> 'm event list" where
  "call_loop W registry MAX_LLM_CALL_RETRIES messages total_models models_tried svc clock =
     (if models_tried < total_models then
        (case call_with_retry W MAX_LLM_CALL_RETRIES svc messages clock of
           (Inr r, clock', evs) \<Rightarrow> (Inr r, svc, clock', evs)
         | (Inl e, clock', evs) \<Rightarrow>
             if \<not> is_OpenAIError e then (Inl e, svc, clock', evs)
             else if \<not> current_model_index svc < length registry
               then (Inl IndexError, svc, clock', evs)
             else
               let log = model_failed_exhausted_retries
                           (name (registry ! current_model_index svc))
               in if Suc models_tried \<ge> total_models
                  then (Inl (RuntimeError exhausted_message), svc, clock', evs @ [log])
                  else
                    (case switch_to_next_model registry svc of
                       (ok, svc', sw) \<Rightarrow>
                         (case call_loop W registry MAX_LLM_CALL_RETRIES messages total_models
                                 (Suc models_tried) svc' clock' of
                            (res, svc'', clock'', evs') \<Rightarrow>
                              (res, svc'', clock'', evs @ log # sw @ evs'))))
      else (Inl (RuntimeError exhausted_message), svc, clock, []))"
  by pat_completeness auto
termination
  by (relation "measure (\<lambda>(W, registry, n, msgs, total, tried, svc, clock). total - tried)") auto

definition call ::
  "('m, 'msg, 'r) world \<Rightarrow> 'm entry list \<Rightarrow> int \<Rightarrow> 'm llm_service \<Rightarrow> 'msg list \<Rightarrow> nat
     \<Rightarrow> (py_exc + 'r) \<times> 'm llm_service \<times> nat \<times> 'm event list" where
  "call W registry MAX_LLM_CALL_RETRIES svc messages clock =
     call_loop W registry MAX_LLM_CALL_RETRIES messages (length registry) 0 svc clock"

text \<open>What is read off a trace: the attempts, the delays, the failed rounds, the switches.\<close>

fun invocations :: "'m event list \<Rightarrow> ('m \<times> nat) list" where
  "invocations [] = []"
| "invocations (Invoke m t # evs) = (m, t) # invocations evs"
| "invocations (ev # evs) = invocations evs"

definition attempts :: "'m event list \<Rightarrow> nat" where
  "attempts evs = length (invocations evs)"

definition delays :: "'m event list \<Rightarrow> nat list" where
  "delays evs = map seconds (filter is_Sleep evs)"

definition failed_rounds :: "'m event list \<Rightarrow> nat" where
  "failed_rounds evs = length (filter is_failed evs)"

definition switches :: "'m event list \<Rightarrow> nat" where
  "switches evs = length (filter is_switch evs)"

section \<open>Scenarios for the resilience layer\<close>

text \<open>
  A service on the source's registry with the first model current, and two
  environments: one where only the third backend answers, one where none does.
\<close>

definition svc0 :: "chat_model llm_service" where
  "svc0 = \<lparr>svc_llm = Some (ChatOpenAI ''gpt-5-mini''), current_model_index = 0\<rparr>"

definition W_two_down :: "(chat_model, string, string) world" where
  "W_two_down m msgs t =
     (if m = ChatOpenAI ''gpt-4o-mini'' then Inr ''ok'' else Inl RateLimitError)"

definition W_all_down :: "(chat_model, string, string) world" where
  "W_all_down m msgs t = Inl RateLimitError"


text \<open>
  Two more environments: the first backend raises an \<^verbatim>\<open>OpenAIError\<close> outside the
  retried classes while the others answer; and every invocation raises a
  \<^verbatim>\<open>ValueError\<close>.
\<close>

definition W_first_rejects :: "(chat_model, string, string) world" where
  "W_first_rejects m msgs t =
     (if m = ChatOpenAI ''gpt-5-mini'' then Inl OpenAIError else Inr ''ok'')"

definition W_bad_request :: "(chat_model, string, string) world" where
  "W_bad_request m msgs t = Inl ValueError"

text \<open>
  An environment where every backend answers, and the service that a fallback to the
  third backend leaves behind.
\<close>

definition W_all_up :: "(chat_model, string, string) world" where
  "W_all_up m msgs t = Inr ''ok''"

definition svc2 :: "chat_model llm_service" where
  "svc2 = \<lparr>svc_llm = Some (ChatOpenAI ''gpt-4o-mini''), current_model_index = 2\<rparr>"


section \<open>The agent graph\<close>

text \<open>
  A tool-call request of an assistant message: a dict with the keys \<^verbatim>\<open>"name"\<close>,
  \<^verbatim>\<open>"args"\<close> and \<^verbatim>\<open>"id"\<close>.
\<close>

record tool_call =
  tc_name :: string
  tc_args :: "(string \<times> string) list"
  tc_id :: string

text \<open>
  The messages of the conversation. Only an assistant message has the attribute
  \<^verbatim>\<open>tool_calls\<close>; a tool message carries the content, the tool's name and the id of
  the request it answers.
\<close>

datatype message =
    HumanMessage string
  | AIMessage string "tool_call list"
  | SystemMessage string
  | ToolMessage (tm_content: string) (tm_name: string) (tool_call_id: string)

text \<open>
  A tool: its name and what invoking it on the arguments yields, a result or an
  exception. The result is already the string \<^verbatim>\<open>str(tool_result)\<close>.
\<close>

record tool =
  tool_name :: string
  ainvoke :: "(string \<times> string) list \<Rightarrow> py_exc + string"

text \<open>
  \<^verbatim>\<open>self.tools_by_name = {tool.name: tool for tool in tools}\<close>: a later tool of
  the same name replaces an earlier one.
\<close>

definition tools_by_name :: "tool list \<Rightarrow> (string \<rightharpoonup> tool)" where
  "tools_by_name tools = fold (\<lambda>t m. m(tool_name t \<mapsto> t)) tools Map.empty"

record graph_state =
  messages :: "message list"
  long_term_memory :: string

text \<open>\<^verbatim>\<open>Command(update={"messages": ...}, goto=...)\<close>\<close>

record command =
  update_messages :: "message list"
  goto :: string

text \<open>
  The \<^verbatim>\<open>for\<close> loop of \<^verbatim>\<open>_tool_call\<close>. The subscript \<^verbatim>\<open>self.tools_by_name[name]\<close>
  raises \<^verbatim>\<open>KeyError\<close> for a name that is not a key; an exception of the tool
  leaves the loop as it is, there is no handler. Beside the result the loop returns
  the requests whose tool it invoked, in order.
\<close>

fun tool_loop ::
  "(string \<rightharpoonup> tool) \<Rightarrow> tool_call list \<Rightarrow> message list
     \<Rightarrow> (py_exc + message list) \<times> tool_call list" where
  "tool_loop tbn [] outputs = (Inr outputs, [])"
| "tool_loop tbn (tc # tcs) outputs =
     (case tbn (tc_name tc) of
        None \<Rightarrow> (Inl (KeyError (tc_name tc)), [])
      | Some t \<Rightarrow>
          (case ainvoke t (tc_args tc) of
             Inl e \<Rightarrow> (Inl e, [tc])
           | Inr tool_result \<Rightarrow>
               (case tool_loop tbn tcs
                       (outputs @ [ToolMessage tool_result (tc_name tc) (tc_id tc)]) of
                  (res, invoked) \<Rightarrow> (res, tc # invoked))))"

text \<open>
  \<^verbatim>\<open>LangGraphAgent._tool_call\<close>. \<^verbatim>\<open>state.messages[-1]\<close> raises \<^verbatim>\<open>IndexError\<close> on
  an empty list, and \<^verbatim>\<open>.tool_calls\<close> raises \<^verbatim>\<open>AttributeError\<close> on a message that is
  not an assistant message.
\<close>

definition LangGraphAgent_tool_call ::
  "tool list \<Rightarrow> graph_state \<Rightarrow> (py_exc + command) \<times> tool_call list" where
  "LangGraphAgent_tool_call tools state =
     (case messages state of
        [] \<Rightarrow> (Inl IndexError, [])
      | _ # _ \<Rightarrow>
          (case last (messages state) of
             AIMessage c tcs \<Rightarrow>
               (case tool_loop (tools_by_name tools) tcs [] of
                  (Inl e, invoked) \<Rightarrow> (Inl e, invoked)
                | (Inr outputs, invoked) \<Rightarrow>
                    (Inr \<lparr>update_messages = outputs, goto = ''chat''\<rparr>, invoked))
           | _ \<Rightarrow> (Inl AttributeError, [])))"

text \<open>
  Modelled from the spec: the state schema \<^verbatim>\<open>GraphState\<close> of \<^verbatim>\<open>app/schemas\<close> is not
  among the sources, and with it the rule by which the graph merges a node's update
  into the state. The spec's data model says that the messages are append-only within
  a turn and that the tool results of a batch are appended.
\<close>

definition apply_update :: "graph_state \<Rightarrow> command \<Rightarrow> graph_state" where
  "apply_update state cmd = state\<lparr>messages := messages state @ update_messages cmd\<rparr>"


section \<open>The orchestrator\<close>

text \<open>An input message of the API (\<^verbatim>\<open>app.schemas.Message\<close>): a role and a text.\<close>

record Message =
  role :: string
  content :: string

text \<open>One result of the memory search: a dict read at its key \<^verbatim>\<open>"memory"\<close>.\<close>

record memory_fact =
  memory :: string

text \<open>The two lazily filled attributes of the agent: \<^verbatim>\<open>_graph\<close> and \<^verbatim>\<open>memory\<close>.\<close>

record ('g, 'c) agent =
  agent_graph :: "'g option"
  agent_memory :: "'c option"

text \<open>
  The collaborators of \<^verbatim>\<open>get_response\<close>: what building the graph with its
  checkpointer yields; what \<^verbatim>\<open>AsyncMemory.from_config\<close> yields; the memory search
  for a user id and a query, whose value is the dict's entry \<^verbatim>\<open>"results"\<close> when it has
  one; \<^verbatim>\<open>dump_messages\<close> of \<^verbatim>\<open>app.utils\<close>; and a run of the compiled graph on an
  initial state and a thread id, which yields the final messages.
\<close>

record ('g, 'c) agent_env =
  create_graph_io :: "py_exc + 'g"
  from_config :: "py_exc + 'c"
  search :: "'c \<Rightarrow> string \<Rightarrow> string \<Rightarrow> py_exc + memory_fact list option"
  dump_messages :: "Message list \<Rightarrow> message list"
  graph_ainvoke :: "'g \<Rightarrow> graph_state \<Rightarrow> string \<Rightarrow> py_exc + message list"

datatype agent_event =
    MemorySearch string string
  | GraphRun graph_state string
  | MemoryUpdateTask string "message list"

text \<open>\<^verbatim>\<open>create_graph\<close>: memoised in \<^verbatim>\<open>self._graph\<close>.\<close>

definition create_graph ::
  "('g, 'c) agent_env \<Rightarrow> ('g, 'c) agent \<Rightarrow> (py_exc + 'g) \<times> ('g, 'c) agent" where
  "create_graph env a =
     (case agent_graph a of
        Some g \<Rightarrow> (Inr g, a)
      | None \<Rightarrow>
          (case create_graph_io env of
             Inl e \<Rightarrow> (Inl e, a)
           | Inr g \<Rightarrow> (Inr g, a\<lparr>agent_graph := Some g\<rparr>)))"

text \<open>\<^verbatim>\<open>_long_term_memory\<close>: memoised in \<^verbatim>\<open>self.memory\<close>.\<close>

definition long_term_memory_client ::
  "('g, 'c) agent_env \<Rightarrow> ('g, 'c) agent \<Rightarrow> (py_exc + 'c) \<times> ('g, 'c) agent" where
  "long_term_memory_client env a =
     (case agent_memory a of
        Some c \<Rightarrow> (Inr c, a)
      | None \<Rightarrow>
          (case from_config env of
             Inl e \<Rightarrow> (Inl e, a)
           | Inr c \<Rightarrow> (Inr c, a\<lparr>agent_memory := Some c\<rparr>)))"

text \<open>Python's \<^verbatim>\<open>sep.join(xs)\<close>.\<close>

fun join :: "string \<Rightarrow> string list \<Rightarrow> string" where
  "join sep [] = []"
| "join sep [x] = x"
| "join sep (x # y # ys) = x @ sep @ join sep (y # ys)"

definition no_memory :: string where
  "no_memory = ''No relevant memory found.''"

text \<open>
  \<^verbatim>\<open>_process_messages\<close>: the role and the text of each message as
  \<^verbatim>\<open>convert_to_openai_messages\<close> gives them, kept when the role is assistant or user
  and the text is not empty.
\<close>

fun openai_message :: "message \<Rightarrow> Message" where
  "openai_message (HumanMessage c) = \<lparr>role = ''user'', content = c\<rparr>"
| "openai_message (AIMessage c tcs) = \<lparr>role = ''assistant'', content = c\<rparr>"
| "openai_message (SystemMessage c) = \<lparr>role = ''system'', content = c\<rparr>"
| "openai_message (ToolMessage c n i) = \<lparr>role = ''tool'', content = c\<rparr>"

definition process_messages :: "message list \<Rightarrow> Message list" where
  "process_messages msgs =
     filter (\<lambda>m. role m \<in> set [''assistant'', ''user''] \<and> content m \<noteq> [])
       (map openai_message msgs)"

text \<open>
  \<^verbatim>\<open>LangGraphAgent.get_response\<close>. The steps are in the source's order: the graph,
  the memory client, the subscript \<^verbatim>\<open>messages[-1]\<close> (an argument of the search, so
  evaluated before the search is called), the search, the context string with its
  \<^verbatim>\<open>or\<close> default, the run of the graph, the background task, the conversion. No step
  has a handler: the first exception is the result. The agent is returned with every
  result, and so are the search, the run and the task that were started.
\<close>

definition get_response ::
  "('g, 'c) agent_env \<Rightarrow> ('g, 'c) agent \<Rightarrow> Message list \<Rightarrow> string \<Rightarrow> string
     \<Rightarrow> (py_exc + Message list) \<times> ('g, 'c) agent \<times> agent_event list" where
  "get_response env a msgs session_id user_id =
     (case (case agent_graph a of
              None \<Rightarrow> create_graph env a
            | Some g \<Rightarrow> (Inr g, a)) of
        (Inl e, a1) \<Rightarrow> (Inl e, a1, [])
      | (Inr g, a1) \<Rightarrow>
          (case long_term_memory_client env a1 of
             (Inl e, a2) \<Rightarrow> (Inl e, a2, [])
           | (Inr memory_client, a2) \<Rightarrow>
               (case msgs of
                  [] \<Rightarrow> (Inl IndexError, a2, [])
                | _ # _ \<Rightarrow>
                    let query = content (last msgs) in
                    (case search env memory_client user_id query of
                       Inl e \<Rightarrow> (Inl e, a2, [MemorySearch user_id query])
                     | Inr relevant_memory \<Rightarrow>
                         let results = (case relevant_memory of None \<Rightarrow> [] | Some rs \<Rightarrow> rs);
                             memory_context =
                               join [CHR 0x0A] (map (\<lambda>res. ''* '' @ memory res) results);
                             input_state =
                               \<lparr>messages = dump_messages env msgs,
                                long_term_memory =
                                  (if memory_context = [] then no_memory else memory_context)\<rparr>
                         in (case graph_ainvoke env g input_state session_id of
                               Inl e \<Rightarrow>
                                 (Inl e, a2,
                                  [MemorySearch user_id query, GraphRun input_state session_id])
                             | Inr final_messages \<Rightarrow>
                                 (Inr (process_messages final_messages), a2,
                                  [MemorySearch user_id query, GraphRun input_state session_id,
                                   MemoryUpdateTask user_id final_messages]))))))"


section \<open>Scenarios for the graph and the turn\<close>

text \<open>
  For the tool node: a search tool that answers and one of the same name that raises,
  two requests for it, a request for a tool that is not registered, and a state whose
  last message is an assistant message with the given requests.
\<close>

definition search_tool :: tool where
  "search_tool = \<lparr>tool_name = ''duckduckgo_results_json'',
                  ainvoke = (\<lambda>args. Inr ''15 C, cloudy'')\<rparr>"

definition failing_search_tool :: tool where
  "failing_search_tool = \<lparr>tool_name = ''duckduckgo_results_json'',
                          ainvoke = (\<lambda>args. Inl (OtherException ''RatelimitException''))\<rparr>"

definition request1 :: tool_call where
  "request1 = \<lparr>tc_name = ''duckduckgo_results_json'',
               tc_args = [(''query'', ''weather in Paris'')], tc_id = ''call_1''\<rparr>"

definition request2 :: tool_call where
  "request2 = \<lparr>tc_name = ''duckduckgo_results_json'',
               tc_args = [(''query'', ''weather in Rome'')], tc_id = ''call_2''\<rparr>"

definition unknown_request :: tool_call where
  "unknown_request = \<lparr>tc_name = ''get_weather'',
                      tc_args = [(''city'', ''Paris'')], tc_id = ''call_3''\<rparr>"

definition state_with :: "tool_call list \<Rightarrow> graph_state" where
  "state_with tcs = \<lparr>messages = [HumanMessage ''What is the weather?'', AIMessage [] tcs],
                     long_term_memory = no_memory\<rparr>"


text \<open>
  For the orchestrator: a fresh agent and an initialised one, a turn of one user
  message, an environment whose memory search yields the given value and whose graph
  answers with the memory context it was given, and one where building the graph
  fails.
\<close>

definition agent0 :: "(unit, unit) agent" where
  "agent0 = \<lparr>agent_graph = None, agent_memory = None\<rparr>"

definition agent_ready :: "(unit, unit) agent" where
  "agent_ready = \<lparr>agent_graph = Some (), agent_memory = Some ()\<rparr>"

definition user_turn :: "Message list" where
  "user_turn = [\<lparr>role = ''user'', content = ''hello''\<rparr>]"

definition env_with ::
  "(py_exc + memory_fact list option) \<Rightarrow> (unit, unit) agent_env" where
  "env_with found =
     \<lparr>create_graph_io = Inr (),
      from_config = Inr (),
      search = (\<lambda>c user_id query. found),
      dump_messages = map (\<lambda>m. HumanMessage (content m)),
      graph_ainvoke =
        (\<lambda>g st thread. Inr (messages st @ [AIMessage (long_term_memory st) []]))\<rparr>"

definition env_no_database :: "(unit, unit) agent_env" where
  "env_no_database = (env_with (Inr (Some [])))
     \<lparr>create_graph_io := Inl (OtherException ''OperationalError'')\<rparr>"


section \<open>Properties of the registry\<close>

lemma get_loop_find:
  "get_loop registry model_name = map_option llm (find (\<lambda>e. name e = model_name) registry)"
  by (induction registry) auto

lemma list_index_absent: "x \<notin> set xs \<Longrightarrow> list_index xs x = Inl ValueError"
  by (induction xs) auto

lemma list_index_present:
  "x \<in> set xs \<Longrightarrow>
     \<exists>i. list_index xs x = Inr i \<and> i < length xs \<and> xs ! i = x \<and> (\<forall>j<i. xs ! j \<noteq> x)"
proof (induction xs)
  case Nil
  then show ?case by simp
next
  case (Cons y ys)
  show ?case
  proof (cases "y = x")
    case True
    then show ?thesis by simp
  next
    case False
    with Cons obtain i where
      i: "list_index ys x = Inr i" "i < length ys" "ys ! i = x" "\<forall>j<i. ys ! j \<noteq> x"
      by auto
    have "\<forall>j<Suc i. (y # ys) ! j \<noteq> x"
      using False i(4) by (auto simp: nth_Cons split: nat.splits)
    with False i show ?thesis by simp
  qed
qed

lemma LLMRegistry_get_value:
  assumes "registry \<noteq> []"
  shows "LLMRegistry_get registry model_name =
           Inr (case find (\<lambda>e. name e = model_name) registry of
                  Some e \<Rightarrow> llm e | None \<Rightarrow> llm (registry ! 0))"
proof -
  obtain e0 es where r: "registry = e0 # es"
    using assms by (cases registry) auto
  show ?thesis
    unfolding LLMRegistry_get_def get_loop_find
    by (simp add: r split: option.splits)
qed

lemma LLMService_init_unknown:
  assumes "registry \<noteq> []" and "model_name \<notin> set (get_all_names registry)"
  shows "LLMService_init registry model_name =
           Inr \<lparr>svc_llm = Some (llm (registry ! 0)), current_model_index = 0\<rparr>"
proof -
  obtain e0 es where r: "registry = e0 # es"
    using assms(1) by (cases registry) auto
  have "find (\<lambda>e. name e = model_name) registry = None"
    using assms(2) by (auto simp: find_None_iff get_all_names_def)
  then have "LLMRegistry_get registry model_name = Inr (llm (registry ! 0))"
    using LLMRegistry_get_value [OF assms(1), of model_name] by simp
  moreover have "list_index (get_all_names registry) model_name = Inl ValueError"
    using assms(2) by (rule list_index_absent)
  ultimately show ?thesis
    by (simp add: LLMService_init_def r)
qed

text \<open>
  C10. On a registry with at least one entry (the source's has three),
  \<^verbatim>\<open>LLMRegistry.get\<close> returns for every model name and never raises: the model of
  the first entry with that name when there is one, the model of the first entry of
  the registry otherwise. A service constructed with a default model name that no
  entry carries therefore starts at index 0 with the first registry model.
\<close>

theorem LLMRegistry_get_total:
  assumes "registry \<noteq> []"
  shows "LLMRegistry_get registry model_name =
           Inr (case find (\<lambda>e. name e = model_name) registry of
                  Some e \<Rightarrow> llm e | None \<Rightarrow> llm (registry ! 0))
         \<and> (model_name \<notin> set (get_all_names registry) \<longrightarrow>
              LLMService_init registry model_name =
                Inr \<lparr>svc_llm = Some (llm (registry ! 0)), current_model_index = 0\<rparr>)"
  using LLMRegistry_get_value [OF assms] LLMService_init_unknown [OF assms]
  by blast

theorem LLMRegistry_get_total_witness:
  "LLMS \<noteq> [] \<and> ''claude'' \<notin> set (get_all_names LLMS)
   \<and> LLMRegistry_get LLMS ''claude'' = Inr (ChatOpenAI ''gpt-5-mini'')
   \<and> LLMRegistry_get LLMS ''gpt-4o'' = Inr (ChatOpenAI ''gpt-4o'')
   \<and> LLMService_init LLMS ''claude'' =
       Inr \<lparr>svc_llm = Some (ChatOpenAI ''gpt-5-mini''), current_model_index = 0\<rparr>"
proof -
  have n: "LLMS \<noteq> []" by (simp add: LLMS_def)
  have a: "''claude'' \<notin> set (get_all_names LLMS)"
    by (simp add: LLMS_def get_all_names_def)
  show ?thesis
    using n a LLMRegistry_get_total [OF n, of "''claude''"]
      LLMRegistry_get_total [OF n, of "''gpt-4o''"]
    by (simp add: LLMS_def)
qed

section \<open>The retry loop\<close>

declare retry_loop.simps [simp del]
declare call_loop.simps [simp del]

lemma call_body_Some:
  "svc_llm svc = Some m \<Longrightarrow>
     call_body W svc msgs clock = (W m msgs clock, Suc clock, [Invoke m clock])"
  by (simp add: call_body_def)

lemma call_body_None:
  "svc_llm svc = None \<Longrightarrow>
     call_body W svc msgs clock = (Inl (RuntimeError ''LLM not initialized''), clock, [])"
  by (simp add: call_body_def)

lemma invocations_append [simp]:
  "invocations (evs @ evs') = invocations evs @ invocations evs'"
  by (induction evs rule: invocations.induct) auto

lemma attempts_simps [simp]:
  "attempts [] = 0"
  "attempts (Invoke m t # evs) = Suc (attempts evs)"
  "attempts (Sleep d # evs) = attempts evs"
  "attempts (model_failed_exhausted_retries s # evs) = attempts evs"
  "attempts (switching_model_fallback i s # evs) = attempts evs"
  "attempts (model_switch_failed # evs) = attempts evs"
  "attempts (evs @ evs') = attempts evs + attempts evs'"
  by (simp_all add: attempts_def)

lemma delays_simps [simp]:
  "delays [] = []"
  "delays (Invoke m t # evs) = delays evs"
  "delays (Sleep d # evs) = d # delays evs"
  "delays (model_failed_exhausted_retries s # evs) = delays evs"
  "delays (switching_model_fallback i s # evs) = delays evs"
  "delays (model_switch_failed # evs) = delays evs"
  "delays (evs @ evs') = delays evs @ delays evs'"
  by (simp_all add: delays_def)

lemma failed_rounds_simps [simp]:
  "failed_rounds [] = 0"
  "failed_rounds (Invoke m t # evs) = failed_rounds evs"
  "failed_rounds (Sleep d # evs) = failed_rounds evs"
  "failed_rounds (model_failed_exhausted_retries s # evs) = Suc (failed_rounds evs)"
  "failed_rounds (switching_model_fallback i s # evs) = failed_rounds evs"
  "failed_rounds (model_switch_failed # evs) = failed_rounds evs"
  "failed_rounds (evs @ evs') = failed_rounds evs + failed_rounds evs'"
  by (simp_all add: failed_rounds_def)

lemma switches_simps [simp]:
  "switches [] = 0"
  "switches (Invoke m t # evs) = switches evs"
  "switches (Sleep d # evs) = switches evs"
  "switches (model_failed_exhausted_retries s # evs) = switches evs"
  "switches (switching_model_fallback i s # evs) = Suc (switches evs)"
  "switches (model_switch_failed # evs) = switches evs"
  "switches (evs @ evs') = switches evs + switches evs'"
  by (simp_all add: switches_def)

text \<open>The hook of the source raises: its level is a string.\<close>

lemma before_sleep_log_WARNING: "before_sleep_log (LevelName ''WARNING'') = Some TypeError"
  by (simp add: before_sleep_log_def logger_log_def)

text \<open>One unfolding of the retry loop on an initialised service.\<close>

lemma retry_loop_unfold:
  assumes "svc_llm svc = Some m"
  shows "retry_loop W n lvl svc msgs k clock =
     (case W m msgs clock of
        Inr r \<Rightarrow> (Inr r, Suc clock, [Invoke m clock])
      | Inl e \<Rightarrow>
          if \<not> retry_if_exception_type e \<or> n \<le> int k then (Inl e, Suc clock, [Invoke m clock])
          else (case before_sleep_log lvl of
                  Some hook_error \<Rightarrow> (Inl hook_error, Suc clock, [Invoke m clock])
                | None \<Rightarrow>
                    (case retry_loop W n lvl svc msgs (Suc k) (Suc clock) of
                       (res, clock'', evs') \<Rightarrow>
                         (res, clock'',
                          Invoke m clock # Sleep (wait_exponential 1 2 10 k) # evs'))))"
  by (subst retry_loop.simps)
     (simp add: call_body_Some [OF assms] split: sum.splits prod.splits option.splits)

text \<open>
  The inner loop of the source, exactly: one attempt and never a sleep. The attempt's
  answer or its exception is the result, unless the exception is transient and the
  budget allows another attempt: then the hook's \<^verbatim>\<open>TypeError\<close> is the result.
\<close>

lemma call_with_retry_Some:
  assumes "svc_llm svc = Some m"
  shows "call_with_retry W n svc msgs clock =
     ((case W m msgs clock of
         Inr r \<Rightarrow> Inr r
       | Inl e \<Rightarrow> if retry_if_exception_type e \<and> 1 < n then Inl TypeError else Inl e),
      Suc clock, [Invoke m clock])"
  unfolding call_with_retry_def
  by (subst retry_loop_unfold [OF assms])
     (auto simp: before_sleep_log_WARNING split: sum.splits)

lemma call_with_retry_None:
  "svc_llm svc = None \<Longrightarrow>
     call_with_retry W n svc msgs clock = (Inl (RuntimeError ''LLM not initialized''), clock, [])"
  unfolding call_with_retry_def
  by (subst retry_loop.simps) (simp add: call_body_None retry_if_exception_type_def)


lemma call_with_retry_hook_raises:
  assumes "svc_llm svc = Some m" and "W m msgs clock = Inl e"
    and "retry_if_exception_type e" and "1 < n"
  shows "call_with_retry W n svc msgs clock = (Inl TypeError, Suc clock, [Invoke m clock])"
  using assms(2-) by (simp add: call_with_retry_Some [OF assms(1)])

lemma call_with_retry_not_retried:
  assumes "svc_llm svc = Some m" and "W m msgs clock = Inl e"
    and "\<not> retry_if_exception_type e"
  shows "call_with_retry W n svc msgs clock = (Inl e, Suc clock, [Invoke m clock])"
  using assms(2-) by (simp add: call_with_retry_Some [OF assms(1)])

text \<open>What every run of the inner loop has, whether the service is initialised or not.\<close>

lemma call_with_retry_facts:
  assumes "call_with_retry W n svc msgs clock = (res, clock', evs)"
  shows "failed_rounds evs = 0" and "switches evs = 0"
    and "res = Inr r \<Longrightarrow>
           \<exists>m t. svc_llm svc = Some m \<and> evs \<noteq> [] \<and> last evs = Invoke m t \<and> W m msgs t = Inr r"
    and "svc_llm svc = Some m \<Longrightarrow> evs \<noteq> [] \<and> hd evs = Invoke m clock"
    and "attempts evs \<le> 1" and "delays evs = []"
proof -
  have evs: "evs = [] \<and> svc_llm svc = None \<and> (\<forall>r. res \<noteq> Inr r)
           \<or> (\<exists>m'. svc_llm svc = Some m' \<and> evs = [Invoke m' clock]
                   \<and> (\<forall>r. res = Inr r \<longrightarrow> W m' msgs clock = Inr r))"
  proof (cases "svc_llm svc")
    case None
    with assms show ?thesis by (auto simp: call_with_retry_None)
  next
    case (Some m')
    from assms have "evs = [Invoke m' clock]"
      and "\<forall>r. res = Inr r \<longrightarrow> W m' msgs clock = Inr r"
      unfolding call_with_retry_Some [OF Some]
      by (auto split: sum.splits if_splits)
    with Some show ?thesis by simp
  qed
  from evs show "failed_rounds evs = 0" by auto
  from evs show "switches evs = 0" by auto
  from evs show "attempts evs \<le> 1" by auto
  from evs show "delays evs = []" by auto
  from evs show "evs \<noteq> [] \<and> hd evs = Invoke m clock" if "svc_llm svc = Some m"
    using that by auto
  from evs show
    "\<exists>m t. svc_llm svc = Some m \<and> evs \<noteq> [] \<and> last evs = Invoke m t \<and> W m msgs t = Inr r"
    if "res = Inr r"
    using that by auto
qed

text \<open>
  What the decorator's arguments would do with a hook that returns, here with an
  integer level: three attempts, with a wait of 2 seconds after the first and of 2
  seconds after the second.
\<close>

lemma retry_loop_with_integer_level:
  "retry_loop W_all_down 3 (LevelNo 30) svc0 [] 1 0 =
     (Inl RateLimitError, 3,
      [Invoke (ChatOpenAI ''gpt-5-mini'') 0, Sleep 2, Invoke (ChatOpenAI ''gpt-5-mini'') 1,
       Sleep 2, Invoke (ChatOpenAI ''gpt-5-mini'') 2])"
  by (simp add: retry_loop.simps call_body_def svc0_def W_all_down_def
        retry_if_exception_type_def before_sleep_log_def logger_log_def wait_exponential_def)

section \<open>The fallback loop\<close>

lemma call_loop_done:
  "\<not> tried < N \<Longrightarrow>
     call_loop W reg n msgs N tried svc clock =
       (Inl (RuntimeError exhausted_message), svc, clock, [])"
  by (subst call_loop.simps) simp

lemma call_loop_answer:
  "tried < N \<Longrightarrow> call_with_retry W n svc msgs clock = (Inr r, c1, e1) \<Longrightarrow>
     call_loop W reg n msgs N tried svc clock = (Inr r, svc, c1, e1)"
  by (subst call_loop.simps) simp

lemma call_loop_propagate:
  "tried < N \<Longrightarrow> call_with_retry W n svc msgs clock = (Inl e, c1, e1) \<Longrightarrow>
   \<not> is_OpenAIError e \<Longrightarrow>
     call_loop W reg n msgs N tried svc clock = (Inl e, svc, c1, e1)"
  by (subst call_loop.simps) simp

lemma call_loop_bad_index:
  "tried < N \<Longrightarrow> call_with_retry W n svc msgs clock = (Inl e, c1, e1) \<Longrightarrow>
   is_OpenAIError e \<Longrightarrow> \<not> current_model_index svc < length reg \<Longrightarrow>
     call_loop W reg n msgs N tried svc clock = (Inl IndexError, svc, c1, e1)"
  by (subst call_loop.simps) simp

lemma call_loop_last:
  "tried < N \<Longrightarrow> call_with_retry W n svc msgs clock = (Inl e, c1, e1) \<Longrightarrow>
   is_OpenAIError e \<Longrightarrow> current_model_index svc < length reg \<Longrightarrow> N \<le> Suc tried \<Longrightarrow>
     call_loop W reg n msgs N tried svc clock =
       (Inl (RuntimeError exhausted_message), svc, c1,
        e1 @ [model_failed_exhausted_retries (name (reg ! current_model_index svc))])"
  by (subst call_loop.simps) simp

lemma call_loop_fallback:
  assumes "Suc tried < N" and "current_model_index svc < length reg"
    and "call_with_retry W n svc msgs clock = (Inl e, c1, e1)" and "is_OpenAIError e"
  shows "call_loop W reg n msgs N tried svc clock =
     (let i' = (current_model_index svc + 1) mod length reg;
          svc' = svc\<lparr>current_model_index := i', svc_llm := Some (llm (reg ! i'))\<rparr>
      in case call_loop W reg n msgs N (Suc tried) svc' c1 of
           (res, svc'', c2, e2) \<Rightarrow>
             (res, svc'', c2,
              e1 @ model_failed_exhausted_retries (name (reg ! current_model_index svc))
                 # switching_model_fallback (current_model_index svc) (name (reg ! i'))
                 # e2))"
  using assms
  by (subst call_loop.simps) (auto simp: switch_to_next_model_def Let_def split: prod.splits)

lemma call_loop_trace:
  assumes "call_loop W reg n msgs N tried svc clock = (res, svc', clock', evs)"
  shows "failed_rounds evs \<le> N - tried
       \<and> switches evs \<le> failed_rounds evs
       \<and> (tried < N \<longrightarrow> switches evs < N - tried)
       \<and> (failed_rounds evs < N - tried \<longrightarrow> switches evs = failed_rounds evs)
       \<and> (tried < N \<and> failed_rounds evs = N - tried \<longrightarrow>
            res = Inl (RuntimeError exhausted_message) \<and> Suc (switches evs) = failed_rounds evs)
       \<and> (switches evs = 0 \<longrightarrow> svc' = svc)
       \<and> (0 < switches evs \<longrightarrow> svc_llm svc' = Some (llm (reg ! current_model_index svc')))
       \<and> (current_model_index svc < length reg \<longrightarrow>
            current_model_index svc' = (current_model_index svc + switches evs) mod length reg)
       \<and> (\<forall>r. res = Inr r \<longrightarrow>
            (\<exists>m t. svc_llm svc' = Some m \<and> evs \<noteq> [] \<and> last evs = Invoke m t
                   \<and> W m msgs t = Inr r))"
  using assms
proof (induction "N - tried" arbitrary: tried svc clock res svc' clock' evs)
  case 0
  then show ?case by (auto simp add: call_loop_done)
next
  case (Suc d)
  from Suc.hyps(2) have lt: "tried < N" by simp
  note run = Suc.prems
  obtain r1 c1 e1 where cwr: "call_with_retry W n svc msgs clock = (r1, c1, e1)"
    by (cases "call_with_retry W n svc msgs clock") auto
  note f = call_with_retry_facts [OF cwr]
  show ?case
  proof (cases r1)
    case (Inr r)
    with run lt cwr f(1,2) f(3) [of r] show ?thesis
      by (auto simp: call_loop_answer)
  next
    case (Inl e)
    note cwr' = cwr [unfolded Inl]
    show ?thesis
    proof (cases "is_OpenAIError e")
      case False
      with run lt cwr' f(1,2) Suc.hyps(2) show ?thesis
        by (auto simp: call_loop_propagate)
    next
      case oa: True
      show ?thesis
      proof (cases "current_model_index svc < length reg")
        case False
        with run lt cwr' oa f(1,2) Suc.hyps(2) show ?thesis
          by (auto simp: call_loop_bad_index)
      next
        case idx: True
        show ?thesis
        proof (cases "N \<le> Suc tried")
          case True
          with run lt cwr' oa idx f(1,2) Suc.hyps(2) show ?thesis
            by (auto simp: call_loop_last)
        next
          case False
          then have lt2: "Suc tried < N" by simp
          define i' where "i' = (current_model_index svc + 1) mod length reg"
          define s1 where "s1 = svc\<lparr>current_model_index := i', svc_llm := Some (llm (reg ! i'))\<rparr>"
          obtain r2 s2 c2 e2 where
            rec: "call_loop W reg n msgs N (Suc tried) s1 c1 = (r2, s2, c2, e2)"
            by (cases "call_loop W reg n msgs N (Suc tried) s1 c1") auto
          from call_loop_fallback [OF lt2 idx cwr' oa] run rec
          have eq: "res = r2" "svc' = s2" "clock' = c2"
            "evs = e1 @ model_failed_exhausted_retries (name (reg ! current_model_index svc))
                 # switching_model_fallback (current_model_index svc) (name (reg ! i')) # e2"
            by (simp_all add: Let_def i'_def s1_def)
          have d: "d = N - Suc tried" using Suc.hyps(2) by simp
          note IH = Suc.hyps(1) [OF d rec]
          have i'lt: "i' < length reg"
            unfolding i'_def using idx by (intro mod_less_divisor) auto
          have s1i: "current_model_index s1 = i'" and s1l: "svc_llm s1 = Some (llm (reg ! i'))"
            by (simp_all add: s1_def)
          have idx': "current_model_index s2 =
                       (current_model_index svc + Suc (switches e2)) mod length reg"
          proof -
            have "current_model_index s2 = (i' + switches e2) mod length reg"
              using IH i'lt s1i by simp
            also have "\<dots> = (current_model_index svc + Suc (switches e2)) mod length reg"
              unfolding i'_def by (simp add: mod_add_left_eq)
            finally show ?thesis .
          qed
          have llm': "svc_llm s2 = Some (llm (reg ! current_model_index s2))"
          proof (cases "switches e2 = 0")
            case True
            with IH have "s2 = s1" by simp
            then show ?thesis by (simp add: s1i s1l)
          next
            case False
            with IH show ?thesis by simp
          qed
          have lastev: "\<exists>m t. svc_llm s2 = Some m \<and> last e2 = Invoke m t \<and> W m msgs t = Inr r \<and> e2 \<noteq> []"
            if "r2 = Inr r" for r
            using IH that by blast
          show ?thesis
            unfolding eq using IH f(1,2) lt2 idx' llm' lastev Suc.hyps(2)
            by (auto simp: d)
        qed
      qed
    qed
  qed
qed


lemma call_loop_first:
  assumes "tried < N" and "svc_llm svc = Some m"
    and "call_loop W reg n msgs N tried svc clock = (res, svc', clock', evs)"
  shows "evs \<noteq> [] \<and> hd evs = Invoke m clock"
proof -
  obtain r1 c1 e1 where cwr: "call_with_retry W n svc msgs clock = (r1, c1, e1)"
    by (cases "call_with_retry W n svc msgs clock") auto
  from call_with_retry_facts(4) [OF cwr assms(2)]
  have e1: "e1 \<noteq> []" "hd e1 = Invoke m clock" by simp_all
  have "\<exists>rest. evs = e1 @ rest"
  proof (cases r1)
    case (Inr r)
    with assms cwr show ?thesis by (simp add: call_loop_answer)
  next
    case (Inl e)
    note cwr' = cwr [unfolded Inl]
    consider "\<not> is_OpenAIError e"
      | "is_OpenAIError e" "\<not> current_model_index svc < length reg"
      | "is_OpenAIError e" "current_model_index svc < length reg" "N \<le> Suc tried"
      | "is_OpenAIError e" "current_model_index svc < length reg" "Suc tried < N"
      by linarith
    then show ?thesis
    proof cases
      case 1
      with assms cwr' show ?thesis by (simp add: call_loop_propagate)
    next
      case 2
      with assms cwr' show ?thesis by (simp add: call_loop_bad_index)
    next
      case 3
      with assms cwr' show ?thesis by (auto simp add: call_loop_last)
    next
      case 4
      from call_loop_fallback [OF 4(3) 4(2) cwr' 4(1)] assms(3) show ?thesis
        by (auto simp: Let_def split: prod.splits)
    qed
  qed
  with e1 show ?thesis by auto
qed


lemma mod_shift_fixed:
  fixes i s N :: nat
  assumes "i < N" and "s < N"
  shows "(i + s) mod N = i \<longleftrightarrow> s = 0"
proof (cases "i + s < N")
  case True
  then show ?thesis by simp
next
  case False
  then have "(i + s) mod N = (i + s - N) mod N"
    by (simp add: le_mod_geq)
  also have "\<dots> = i + s - N"
    using assms by simp
  finally show ?thesis using assms False by auto
qed

section \<open>The claims on the resilience layer\<close>

lemmas run_simps =
  call_def call_loop.simps call_with_retry_def retry_loop.simps call_body_def
  retry_if_exception_type_def before_sleep_log_def logger_log_def wait_exponential_def
  switch_to_next_model_def LLMS_def svc0_def exhausted_message_def



text \<open>
  C2, as amended. An error outside the transient classes is never retried within a
  backend: at whatever attempt it is raised, the inner loop ends there with that
  error, after the one invocation and with no sleep. Such an error reaches the caller
  of \<^verbatim>\<open>call\<close> at once, with the service unchanged and nothing logged, when it is
  not an \<^verbatim>\<open>OpenAIError\<close>. When it is an \<^verbatim>\<open>OpenAIError\<close>, \<^verbatim>\<open>call\<close> catches it and
  falls back to the next backend as it does for an exhausted budget.
\<close>

theorem non_transient_errors_not_retried:
  "(svc_llm svc = Some m \<and> W m msgs clock = Inl e \<and> \<not> retry_if_exception_type e \<longrightarrow>
      retry_loop W n lvl svc msgs k clock = (Inl e, Suc clock, [Invoke m clock])
      \<and> call_with_retry W n svc msgs clock = (Inl e, Suc clock, [Invoke m clock]))
   \<and> (tried < N \<and> call_with_retry W n svc msgs clock = (Inl e, c1, e1)
        \<and> \<not> is_OpenAIError e \<longrightarrow>
        call_loop W registry n msgs N tried svc clock = (Inl e, svc, c1, e1))
   \<and> (Suc tried < N \<and> current_model_index svc < length registry
        \<and> call_with_retry W n svc msgs clock = (Inl e, c1, e1) \<and> is_OpenAIError e \<longrightarrow>
        call_loop W registry n msgs N tried svc clock =
          (let i' = (current_model_index svc + 1) mod length registry;
               svc' = svc\<lparr>current_model_index := i', svc_llm := Some (llm (registry ! i'))\<rparr>
           in case call_loop W registry n msgs N (Suc tried) svc' c1 of
                (res, svc'', c2, e2) \<Rightarrow>
                  (res, svc'', c2,
                   e1 @ model_failed_exhausted_retries
                          (name (registry ! current_model_index svc))
                      # switching_model_fallback (current_model_index svc)
                          (name (registry ! i'))
                      # e2)))"
proof (intro conjI impI)
  assume h: "svc_llm svc = Some m \<and> W m msgs clock = Inl e \<and> \<not> retry_if_exception_type e"
  then have llm: "svc_llm svc = Some m" and w: "W m msgs clock = Inl e"
    and nt: "\<not> retry_if_exception_type e"
    by simp_all
  show "retry_loop W n lvl svc msgs k clock = (Inl e, Suc clock, [Invoke m clock])"
    using w nt by (subst retry_loop_unfold [OF llm]) simp
  show "call_with_retry W n svc msgs clock = (Inl e, Suc clock, [Invoke m clock])"
    using w nt by (simp add: call_with_retry_Some [OF llm])
next
  assume "tried < N \<and> call_with_retry W n svc msgs clock = (Inl e, c1, e1)
        \<and> \<not> is_OpenAIError e"
  then show "call_loop W registry n msgs N tried svc clock = (Inl e, svc, c1, e1)"
    by (simp add: call_loop_propagate)
next
  assume "Suc tried < N \<and> current_model_index svc < length registry
        \<and> call_with_retry W n svc msgs clock = (Inl e, c1, e1) \<and> is_OpenAIError e"
  then have "Suc tried < N" "current_model_index svc < length registry"
    "call_with_retry W n svc msgs clock = (Inl e, c1, e1)" "is_OpenAIError e"
    by simp_all
  then show "call_loop W registry n msgs N tried svc clock =
          (let i' = (current_model_index svc + 1) mod length registry;
               svc' = svc\<lparr>current_model_index := i', svc_llm := Some (llm (registry ! i'))\<rparr>
           in case call_loop W registry n msgs N (Suc tried) svc' c1 of
                (res, svc'', c2, e2) \<Rightarrow>
                  (res, svc'', c2,
                   e1 @ model_failed_exhausted_retries
                          (name (registry ! current_model_index svc))
                      # switching_model_fallback (current_model_index svc)
                          (name (registry ! i'))
                      # e2))"
    by (rule call_loop_fallback)
qed

theorem non_transient_errors_not_retried_witness:
  "svc_llm svc0 = Some (ChatOpenAI ''gpt-5-mini'')
   \<and> W_bad_request (ChatOpenAI ''gpt-5-mini'') [] 0 = Inl ValueError
   \<and> \<not> retry_if_exception_type ValueError
   \<and> call_with_retry W_bad_request 3 svc0 [] 0 =
       (Inl ValueError, 1, [Invoke (ChatOpenAI ''gpt-5-mini'') 0])
   \<and> \<not> is_OpenAIError ValueError
   \<and> call W_bad_request LLMS 3 svc0 [] 0 =
       (Inl ValueError, svc0, 1, [Invoke (ChatOpenAI ''gpt-5-mini'') 0])
   \<and> is_OpenAIError OpenAIError
   \<and> call_with_retry W_first_rejects 3 svc0 [] 0 =
       (Inl OpenAIError, 1, [Invoke (ChatOpenAI ''gpt-5-mini'') 0])
   \<and> call_loop W_first_rejects LLMS 3 [] 3 0 svc0 0 =
       (Inr ''ok'', \<lparr>svc_llm = Some (ChatOpenAI ''gpt-4o''), current_model_index = 1\<rparr>, 2,
        [Invoke (ChatOpenAI ''gpt-5-mini'') 0,
         model_failed_exhausted_retries ''gpt-5-mini'',
         switching_model_fallback 0 ''gpt-4o'',
         Invoke (ChatOpenAI ''gpt-4o'') 1])"
proof -
  let ?m = "ChatOpenAI ''gpt-5-mini''"
  let ?evs = "[Invoke ?m 0]"
  have len: "length LLMS = 3" by (simp add: LLMS_def)
  have l: "svc_llm svc0 = Some ?m" by (simp add: svc0_def)
  have w: "W_bad_request ?m [] 0 = Inl ValueError" by (simp add: W_bad_request_def)
  have nt: "\<not> retry_if_exception_type ValueError" by (simp add: retry_if_exception_type_def)
  have no: "\<not> is_OpenAIError ValueError" by simp
  note T = non_transient_errors_not_retried
    [of svc0 ?m W_bad_request "[]" 0 ValueError 3 "LevelName ''WARNING''" 1 0 3 1 ?evs LLMS]
  from T l w nt have r: "call_with_retry W_bad_request 3 svc0 [] 0 = (Inl ValueError, 1, ?evs)"
    by simp
  from T r no have "call_loop W_bad_request LLMS 3 [] 3 0 svc0 0 = (Inl ValueError, svc0, 1, ?evs)"
    by simp
  then have c: "call W_bad_request LLMS 3 svc0 [] 0 = (Inl ValueError, svc0, 1, ?evs)"
    unfolding call_def len by simp
  have oa: "is_OpenAIError OpenAIError" by simp
  have w2: "W_first_rejects ?m [] 0 = Inl OpenAIError" by (simp add: W_first_rejects_def)
  have nt2: "\<not> retry_if_exception_type OpenAIError" by (simp add: retry_if_exception_type_def)
  note T2 = non_transient_errors_not_retried
    [of svc0 ?m W_first_rejects "[]" 0 OpenAIError 3 "LevelName ''WARNING''" 1 0 3 1 ?evs LLMS]
  from T2 l w2 nt2 have r2: "call_with_retry W_first_rejects 3 svc0 [] 0 = (Inl OpenAIError, 1, ?evs)"
    by simp
  have i: "current_model_index svc0 < length LLMS" by (simp add: svc0_def LLMS_def)
  have rest: "call_loop W_first_rejects LLMS 3 [] 3 (Suc 0)
                \<lparr>svc_llm = Some (ChatOpenAI ''gpt-4o''), current_model_index = 1\<rparr> 1 =
              (Inr ''ok'', \<lparr>svc_llm = Some (ChatOpenAI ''gpt-4o''), current_model_index = 1\<rparr>, 2,
               [Invoke (ChatOpenAI ''gpt-4o'') 1])"
    by (simp add: run_simps W_first_rejects_def)
  from T2 i r2 oa
  have "call_loop W_first_rejects LLMS 3 [] 3 0 svc0 0 =
          (let i' = (current_model_index svc0 + 1) mod length LLMS;
               svc' = svc0\<lparr>current_model_index := i', svc_llm := Some (llm (LLMS ! i'))\<rparr>
           in case call_loop W_first_rejects LLMS 3 [] 3 (Suc 0) svc' 1 of
                (res, svc'', c2, e2) \<Rightarrow>
                  (res, svc'', c2,
                   [Invoke ?m 0] @ model_failed_exhausted_retries
                          (name (LLMS ! current_model_index svc0))
                      # switching_model_fallback (current_model_index svc0)
                          (name (LLMS ! i'))
                      # e2))"
    by simp
  with rest have f: "call_loop W_first_rejects LLMS 3 [] 3 0 svc0 0 =
       (Inr ''ok'', \<lparr>svc_llm = Some (ChatOpenAI ''gpt-4o''), current_model_index = 1\<rparr>, 2,
        [Invoke ?m 0, model_failed_exhausted_retries ''gpt-5-mini'',
         switching_model_fallback 0 ''gpt-4o'', Invoke (ChatOpenAI ''gpt-4o'') 1])"
    by (simp add: svc0_def LLMS_def)
  from l w nt r no c oa r2 f show ?thesis by blast
qed

text \<open>
  The claim as stated fails: the first backend raises an \<^verbatim>\<open>OpenAIError\<close> that is
  not in the retried classes; it is not retried, yet it does not reach the caller:
  \<^verbatim>\<open>call\<close> switches to the second backend and returns its answer.
\<close>

theorem non_transient_openai_error_falls_back:
  "\<not> retry_if_exception_type OpenAIError
   \<and> W_first_rejects (ChatOpenAI ''gpt-5-mini'') [] 0 = Inl OpenAIError
   \<and> call W_first_rejects LLMS 3 svc0 [] 0 =
       (Inr ''ok'', \<lparr>svc_llm = Some (ChatOpenAI ''gpt-4o''), current_model_index = 1\<rparr>, 2,
        [Invoke (ChatOpenAI ''gpt-5-mini'') 0,
         model_failed_exhausted_retries ''gpt-5-mini'',
         switching_model_fallback 0 ''gpt-4o'',
         Invoke (ChatOpenAI ''gpt-4o'') 1])"
  by (simp add: run_simps W_first_rejects_def)

section \<open>The backoff schedule\<close>

lemma wait_exponential_range:
  "2 \<le> wait_exponential 1 2 10 k \<and> wait_exponential 1 2 10 k \<le> 10"
  by (simp add: wait_exponential_def)

lemma wait_exponential_mono:
  assumes "k \<le> k'"
  shows "wait_exponential a mn mx k \<le> wait_exponential a mn mx k'"
proof -
  have "(2::nat) ^ (k - 1) \<le> 2 ^ (k' - 1)"
    using assms by (intro power_increasing) auto
  then have "max (max 0 mn) (min (a * 2 ^ (k - 1)) mx)
               \<le> max (max 0 mn) (min (a * 2 ^ (k' - 1)) mx)"
    by (intro max.mono min.mono mult_le_mono) simp_all
  then show ?thesis
    unfolding wait_exponential_def .
qed

lemma wait_exponential_values:
  "map (wait_exponential 1 2 10) [1, 2, 3, 4, 5, 6] = [2, 2, 4, 8, 10, 10]"
  by (simp add: wait_exponential_def)

text \<open>
  C3. With the default budget of three attempts and a backend that is rate-limited
  at every attempt, the inner loop makes one attempt and never sleeps: before the
  first sleep the decorator calls its \<^verbatim>\<open>before_sleep\<close> hook, the hook logs at the
  level \<^verbatim>\<open>"WARNING"\<close>, a string, and the logger raises \<^verbatim>\<open>TypeError\<close>. That exception
  is the result of the inner loop and of \<^verbatim>\<open>call\<close>: there is no second attempt, no
  delay and no fallback.
\<close>

theorem retry_hook_raises_before_first_sleep:
  "before_sleep_log (LevelName ''WARNING'') = Some TypeError
   \<and> call_with_retry W_all_down 3 svc0 [] 0 =
       (Inl TypeError, 1, [Invoke (ChatOpenAI ''gpt-5-mini'') 0])
   \<and> attempts (snd (snd (call_with_retry W_all_down 3 svc0 [] 0))) = 1
   \<and> delays (snd (snd (call_with_retry W_all_down 3 svc0 [] 0))) = []
   \<and> call W_all_down LLMS 3 svc0 [] 0 =
       (Inl TypeError, svc0, 1, [Invoke (ChatOpenAI ''gpt-5-mini'') 0])"
  by (simp add: run_simps W_all_down_def)

section \<open>The sticky index\<close>

lemma list_index_get_loop:
  "list_index (map name reg) d = Inr i \<Longrightarrow>
     i < length reg \<and> name (reg ! i) = d \<and> get_loop reg d = Some (llm (reg ! i))"
proof (induction reg arbitrary: i)
  case Nil
  then show ?case by simp
next
  case (Cons e es)
  show ?case
  proof (cases "name e = d")
    case True
    with Cons.prems show ?thesis by simp
  next
    case False
    with Cons.prems obtain j where j: "list_index (map name es) d = Inr j" "i = Suc j"
      by (auto split: sum.splits)
    from Cons.IH [OF j(1)] False j(2) show ?thesis by simp
  qed
qed

text \<open>
  A constructed service is in step with the registry: its index is in range and its
  model is the one of the entry at that index; the index is the first position of the
  configured default name, or 0 when no entry has that name.
\<close>

lemma LLMService_init_in_step:
  assumes "LLMService_init reg d = Inr s"
  shows "current_model_index s < length reg"
    and "svc_llm s = Some (llm (reg ! current_model_index s))"
    and "d \<in> set (get_all_names reg) \<Longrightarrow> name (reg ! current_model_index s) = d"
    and "d \<notin> set (get_all_names reg) \<Longrightarrow> current_model_index s = 0"
proof -
  have ne: "reg \<noteq> []"
    using assms by (auto simp: LLMService_init_def LLMRegistry_get_def)
  then obtain e0 es where r: "reg = e0 # es" by (cases reg) auto
  show "current_model_index s = 0" if "d \<notin> set (get_all_names reg)"
    using LLMService_init_unknown [OF ne that] assms by simp
  have both: "current_model_index s < length reg
      \<and> svc_llm s = Some (llm (reg ! current_model_index s))
      \<and> (d \<in> set (get_all_names reg) \<longrightarrow> name (reg ! current_model_index s) = d)"
  proof (cases "list_index (get_all_names reg) d")
    case (Inl e)
    then have "d \<notin> set (get_all_names reg)"
      using list_index_present [of d "get_all_names reg"] by auto
    with LLMService_init_unknown [OF ne] assms show ?thesis
      by (auto simp: r)
  next
    case (Inr i)
    from list_index_get_loop [OF Inr [unfolded get_all_names_def]]
    have i: "i < length reg" "name (reg ! i) = d" "get_loop reg d = Some (llm (reg ! i))"
      by simp_all
    with assms Inr show ?thesis
      by (auto simp: LLMService_init_def LLMRegistry_get_def)
  qed
  then show "current_model_index s < length reg"
    and "svc_llm s = Some (llm (reg ! current_model_index s))"
    and "d \<in> set (get_all_names reg) \<Longrightarrow> name (reg ! current_model_index s) = d"
    by simp_all
qed

text \<open>
  C4. A call never resets the sticky index. Its final index is the start index
  advanced by the number of switches the call made, modulo \<open>N\<close>; there are fewer than
  \<open>N\<close> switches and no more than failed rounds, so the index is unchanged exactly
  when the call switched no backend, and then the whole service is unchanged. When
  the call returns a message, every failed round was followed by a switch, the model
  that answered is the current model of the service, and after a fallback it is the
  model of the registry entry the index points at. The next call on that service
  starts by invoking that model. A constructed service points at the first entry
  named by the configured default.
\<close>

theorem sticky_index_persists:
  assumes "current_model_index svc < length registry"
    and "call W registry n svc msgs clock = (res, svc', clock', evs)"
  shows "current_model_index svc' =
           (current_model_index svc + switches evs) mod length registry
       \<and> switches evs < length registry
       \<and> switches evs \<le> failed_rounds evs
       \<and> (current_model_index svc' = current_model_index svc \<longleftrightarrow> switches evs = 0)
       \<and> (switches evs = 0 \<longrightarrow> svc' = svc)
       \<and> (\<forall>r. res = Inr r \<longrightarrow>
             switches evs = failed_rounds evs
             \<and> (\<exists>m t. svc_llm svc' = Some m \<and> last evs = Invoke m t \<and> W m msgs t = Inr r
                      \<and> (0 < switches evs \<longrightarrow>
                            m = llm (registry ! current_model_index svc'))))
       \<and> (\<forall>m W2 n2 msgs2 res2 svc2 clock2 evs2.
             svc_llm svc' = Some m
             \<and> call W2 registry n2 svc' msgs2 clock' = (res2, svc2, clock2, evs2) \<longrightarrow>
             evs2 \<noteq> [] \<and> hd evs2 = Invoke m clock')
       \<and> (\<forall>d s. LLMService_init registry d = Inr s \<and> d \<in> set (get_all_names registry) \<longrightarrow>
             name (registry ! current_model_index s) = d
             \<and> svc_llm s = Some (llm (registry ! current_model_index s)))"
proof -
  have pos: "0 < length registry" using assms(1) by auto
  from assms(2) have
    run: "call_loop W registry n msgs (length registry) 0 svc clock = (res, svc', clock', evs)"
    by (simp add: call_def)
  note t = call_loop_trace [OF run]
  have idx: "current_model_index svc' =
           (current_model_index svc + switches evs) mod length registry"
    using t assms(1) by simp
  have sw: "switches evs < length registry" using t pos by simp
  have le: "switches evs \<le> failed_rounds evs" using t by simp
  have fixed: "current_model_index svc' = current_model_index svc \<longleftrightarrow> switches evs = 0"
    unfolding idx using mod_shift_fixed [OF assms(1) sw] .
  have same: "switches evs = 0 \<longrightarrow> svc' = svc" using t by simp
  have ans: "switches evs = failed_rounds evs
             \<and> (\<exists>m t. svc_llm svc' = Some m \<and> last evs = Invoke m t \<and> W m msgs t = Inr r
                      \<and> (0 < switches evs \<longrightarrow>
                            m = llm (registry ! current_model_index svc')))"
    if "res = Inr r" for r
  proof -
    have "failed_rounds evs \<noteq> length registry"
      using t pos that by auto
    with t have eq: "switches evs = failed_rounds evs" by simp
    from t that obtain m t' where
      m: "svc_llm svc' = Some m" "last evs = Invoke m t'" "W m msgs t' = Inr r"
      by blast
    have "0 < switches evs \<longrightarrow> m = llm (registry ! current_model_index svc')"
      using t m(1) by simp
    with eq m show ?thesis
      by (intro conjI exI [of _ m] exI [of _ t']) simp_all
  qed
  have nxt: "evs2 \<noteq> [] \<and> hd evs2 = Invoke m clock'"
    if "svc_llm svc' = Some m
        \<and> call W2 registry n2 svc' msgs2 clock' = (res2, svc2, clock2, evs2)"
    for m W2 n2 msgs2 res2 svc2 clock2 evs2
    using that call_loop_first [OF pos, of svc' m W2 registry n2 msgs2 clock' res2 svc2 clock2 evs2]
    by (simp add: call_def)
  have ini: "name (registry ! current_model_index s) = d
             \<and> svc_llm s = Some (llm (registry ! current_model_index s))"
    if "LLMService_init registry d = Inr s \<and> d \<in> set (get_all_names registry)" for d s
    using that LLMService_init_in_step(2,3) [of registry d s] by simp
  from idx sw le fixed same ans nxt ini show ?thesis by blast
qed

theorem sticky_index_persists_witness:
  "current_model_index svc0 < length LLMS
   \<and> fst (call W_two_down LLMS 1 svc0 [] 0) = Inr ''ok''
   \<and> fst (snd (call W_two_down LLMS 1 svc0 [] 0)) = svc2
   \<and> fst (snd (snd (call W_two_down LLMS 1 svc0 [] 0))) = 3
   \<and> switches (snd (snd (snd (call W_two_down LLMS 1 svc0 [] 0)))) = 2
   \<and> current_model_index svc2 = (current_model_index svc0 + 2) mod length LLMS
   \<and> current_model_index svc2 \<noteq> current_model_index svc0
   \<and> svc_llm svc2 = Some (llm (LLMS ! current_model_index svc2))
   \<and> call W_all_up LLMS 3 svc2 [] 3 =
       (Inr ''ok'', svc2, 4, [Invoke (ChatOpenAI ''gpt-4o-mini'') 3])
   \<and> LLMService_init LLMS ''gpt-5-mini'' = Inr svc0
   \<and> ''gpt-5-mini'' \<in> set (get_all_names LLMS)"
proof -
  let ?evs = "[Invoke (ChatOpenAI ''gpt-5-mini'') 0,
     model_failed_exhausted_retries ''gpt-5-mini'',
     switching_model_fallback 0 ''gpt-4o'',
     Invoke (ChatOpenAI ''gpt-4o'') 1,
     model_failed_exhausted_retries ''gpt-4o'',
     switching_model_fallback 1 ''gpt-4o-mini'',
     Invoke (ChatOpenAI ''gpt-4o-mini'') 2]"
  have h: "current_model_index svc0 < length LLMS"
    by (simp add: svc0_def LLMS_def)
  have c1: "call W_two_down LLMS 1 svc0 [] 0 = (Inr ''ok'', svc2, 3, ?evs)"
    by (simp add: run_simps W_two_down_def svc2_def)
  have c2: "call W_all_up LLMS 3 svc2 [] 3 =
       (Inr ''ok'', svc2, 4, [Invoke (ChatOpenAI ''gpt-4o-mini'') 3])"
    by (simp add: run_simps W_all_up_def svc2_def)
  have i: "LLMService_init LLMS ''gpt-5-mini'' = Inr svc0"
    by (simp add: LLMService_init_def LLMRegistry_get_def get_all_names_def LLMS_def svc0_def)
  have n: "''gpt-5-mini'' \<in> set (get_all_names LLMS)"
    by (simp add: get_all_names_def LLMS_def)
  have s: "switches ?evs = 2" by simp
  note T = sticky_index_persists [OF h c1, unfolded s]
  from T have a: "current_model_index svc2 = (current_model_index svc0 + 2) mod length LLMS"
    by blast
  from T have "current_model_index svc2 = current_model_index svc0 \<longleftrightarrow> (2::nat) = 0"
    by blast
  then have b: "current_model_index svc2 \<noteq> current_model_index svc0"
    by simp
  from T have c: "svc_llm svc2 = Some (llm (LLMS ! current_model_index svc2))"
    by auto
  from h c1 c2 i n s a b c show ?thesis by simp
qed


section \<open>The tool node\<close>

lemma tool_loop_all_return:
  assumes "\<forall>tc \<in> set tcs. \<exists>t r. tbn (tc_name tc) = Some t \<and> ainvoke t (tc_args tc) = Inr r"
  shows "tool_loop tbn tcs outputs =
     (Inr (outputs @
           map (\<lambda>tc. ToolMessage (projr (ainvoke (the (tbn (tc_name tc))) (tc_args tc)))
                        (tc_name tc) (tc_id tc)) tcs),
      tcs)"
  using assms
proof (induction tcs arbitrary: outputs)
  case Nil
  then show ?case by simp
next
  case (Cons tc tcs)
  from Cons.prems obtain t r where
    t: "tbn (tc_name tc) = Some t" "ainvoke t (tc_args tc) = Inr r"
    by auto
  from Cons.prems have
    "\<forall>tc \<in> set tcs. \<exists>t r. tbn (tc_name tc) = Some t \<and> ainvoke t (tc_args tc) = Inr r"
    by simp
  from Cons.IH [OF this] t show ?case by simp
qed

lemma tool_loop_unknown:
  assumes "\<forall>p \<in> set pre. \<exists>t r. tbn (tc_name p) = Some t \<and> ainvoke t (tc_args p) = Inr r"
    and "tbn (tc_name tc) = None"
  shows "tool_loop tbn (pre @ tc # post) outputs = (Inl (KeyError (tc_name tc)), pre)"
  using assms(1)
proof (induction pre arbitrary: outputs)
  case Nil
  with assms(2) show ?case by simp
next
  case (Cons p pre)
  from Cons.prems obtain t r where
    t: "tbn (tc_name p) = Some t" "ainvoke t (tc_args p) = Inr r"
    by auto
  from Cons.prems have
    "\<forall>p \<in> set pre. \<exists>t r. tbn (tc_name p) = Some t \<and> ainvoke t (tc_args p) = Inr r"
    by simp
  from Cons.IH [OF this] t show ?case by simp
qed

text \<open>The invoked requests are a prefix of the batch, each with a registered name.\<close>

lemma tool_loop_invoked:
  "tool_loop tbn tcs outputs = (res, invoked) \<Longrightarrow>
     (\<exists>rest. tcs = invoked @ rest) \<and> (\<forall>q \<in> set invoked. tbn (tc_name q) \<noteq> None)"
proof (induction tcs arbitrary: outputs res invoked)
  case Nil
  then show ?case by simp
next
  case (Cons tc tcs)
  show ?case
  proof (cases "tbn (tc_name tc)")
    case None
    with Cons.prems show ?thesis by auto
  next
    case (Some t)
    show ?thesis
    proof (cases "ainvoke t (tc_args tc)")
      case (Inl e)
      with Some Cons.prems show ?thesis by auto
    next
      case (Inr r)
      obtain res2 inv2 where
        rec: "tool_loop tbn tcs (outputs @ [ToolMessage r (tc_name tc) (tc_id tc)]) = (res2, inv2)"
        by (cases "tool_loop tbn tcs (outputs @ [ToolMessage r (tc_name tc) (tc_id tc)])") auto
      with Some Inr Cons.prems have eq: "res = res2" "invoked = tc # inv2" by simp_all
      from Cons.IH [OF rec] Some show ?thesis unfolding eq by auto
    qed
  qed
qed

lemma tool_loop_unknown_fails:
  "tc \<in> set tcs \<Longrightarrow> tbn (tc_name tc) = None \<Longrightarrow> \<exists>e invoked. tool_loop tbn tcs outputs = (Inl e, invoked)"
proof (induction tcs arbitrary: outputs)
  case Nil
  then show ?case by simp
next
  case (Cons x tcs)
  show ?case
  proof (cases "tbn (tc_name x)")
    case None
    then show ?thesis by simp
  next
    case (Some t)
    with Cons.prems have mem: "tc \<in> set tcs" by auto
    show ?thesis
    proof (cases "ainvoke t (tc_args x)")
      case (Inl e)
      with Some show ?thesis by simp
    next
      case (Inr r)
      from Cons.IH [OF mem Cons.prems(2), of "outputs @ [ToolMessage r (tc_name x) (tc_id x)]"]
      obtain e inv where
        "tool_loop tbn tcs (outputs @ [ToolMessage r (tc_name x) (tc_id x)]) = (Inl e, inv)"
        by blast
      with Some Inr show ?thesis by simp
    qed
  qed
qed

lemma LangGraphAgent_tool_call_unfold:
  assumes "messages state \<noteq> []" and "last (messages state) = AIMessage c tcs"
  shows "LangGraphAgent_tool_call tools state =
     (case tool_loop (tools_by_name tools) tcs [] of
        (Inl e, invoked) \<Rightarrow> (Inl e, invoked)
      | (Inr outputs, invoked) \<Rightarrow>
          (Inr \<lparr>update_messages = outputs, goto = ''chat''\<rparr>, invoked))"
proof -
  obtain x xs where m: "messages state = x # xs"
    using assms(1) by (cases "messages state") auto
  from assms(2) have "last (x # xs) = AIMessage c tcs"
    by (simp only: m)
  then show ?thesis
    unfolding LangGraphAgent_tool_call_def m by (simp del: last.simps)
qed

text \<open>
  C5, as amended. When the last message is an assistant message with \<open>k\<close> requests,
  every name resolves in the registry and every invocation returns, the node invokes
  the \<open>k\<close> tools once each in request order and returns \<open>k\<close> tool messages in that
  order, each with the id and the name of its request and the tool's result as
  content, in a command that goes to \<^verbatim>\<open>chat\<close>; merged into the state, they are
  appended to its messages.
\<close>

theorem tool_call_round_trip:
  assumes "messages state \<noteq> []" and "last (messages state) = AIMessage c tcs"
    and "\<forall>tc \<in> set tcs. \<exists>t r. tools_by_name tools (tc_name tc) = Some t
                               \<and> ainvoke t (tc_args tc) = Inr r"
  shows "let outputs =
               map (\<lambda>tc. ToolMessage
                            (projr (ainvoke (the (tools_by_name tools (tc_name tc))) (tc_args tc)))
                            (tc_name tc) (tc_id tc)) tcs;
             cmd = \<lparr>update_messages = outputs, goto = ''chat''\<rparr>
         in LangGraphAgent_tool_call tools state = (Inr cmd, tcs)
            \<and> length outputs = length tcs
            \<and> map tool_call_id outputs = map tc_id tcs
            \<and> map tm_name outputs = map tc_name tcs
            \<and> messages (apply_update state cmd) = messages state @ outputs"
  unfolding LangGraphAgent_tool_call_unfold [OF assms(1,2)]
    tool_loop_all_return [OF assms(3)]
  by (simp add: Let_def apply_update_def comp_def)

theorem tool_call_round_trip_witness:
  "messages (state_with [request1, request2]) \<noteq> []
   \<and> last (messages (state_with [request1, request2])) = AIMessage [] [request1, request2]
   \<and> tools_by_name [search_tool] (tc_name request1) = Some search_tool
   \<and> tools_by_name [search_tool] (tc_name request2) = Some search_tool
   \<and> ainvoke search_tool (tc_args request1) = Inr ''15 C, cloudy''
   \<and> ainvoke search_tool (tc_args request2) = Inr ''15 C, cloudy''
   \<and> LangGraphAgent_tool_call [search_tool] (state_with [request1, request2]) =
       (Inr \<lparr>update_messages =
               [ToolMessage ''15 C, cloudy'' ''duckduckgo_results_json'' ''call_1'',
                ToolMessage ''15 C, cloudy'' ''duckduckgo_results_json'' ''call_2''],
             goto = ''chat''\<rparr>,
        [request1, request2])"
proof -
  have a: "messages (state_with [request1, request2]) \<noteq> []"
    by (simp add: state_with_def)
  have b: "last (messages (state_with [request1, request2])) = AIMessage [] [request1, request2]"
    by (simp add: state_with_def)
  have r1: "tools_by_name [search_tool] (tc_name request1) = Some search_tool"
    and r2: "tools_by_name [search_tool] (tc_name request2) = Some search_tool"
    by (simp_all add: tools_by_name_def search_tool_def request1_def request2_def)
  have i1: "ainvoke search_tool (tc_args request1) = Inr ''15 C, cloudy''"
    and i2: "ainvoke search_tool (tc_args request2) = Inr ''15 C, cloudy''"
    by (simp_all add: search_tool_def)
  have c: "\<forall>tc \<in> set [request1, request2].
             \<exists>t r. tools_by_name [search_tool] (tc_name tc) = Some t
                   \<and> ainvoke t (tc_args tc) = Inr r"
    using r1 r2 i1 i2 by simp
  from tool_call_round_trip [OF a b c] r1 r2 i1 i2
  have "LangGraphAgent_tool_call [search_tool] (state_with [request1, request2]) =
       (Inr \<lparr>update_messages =
               [ToolMessage ''15 C, cloudy'' (tc_name request1) (tc_id request1),
                ToolMessage ''15 C, cloudy'' (tc_name request2) (tc_id request2)],
             goto = ''chat''\<rparr>,
        [request1, request2])"
    by (simp add: Let_def)
  then have d: "LangGraphAgent_tool_call [search_tool] (state_with [request1, request2]) =
       (Inr \<lparr>update_messages =
               [ToolMessage ''15 C, cloudy'' ''duckduckgo_results_json'' ''call_1'',
                ToolMessage ''15 C, cloudy'' ''duckduckgo_results_json'' ''call_2''],
             goto = ''chat''\<rparr>,
        [request1, request2])"
    by (simp add: request1_def request2_def)
  from a b r1 r2 i1 i2 d show ?thesis by blast
qed

text \<open>
  The claim as stated fails: the name of the request resolves in the registry, the
  tool raises, and the node raises with it: no tool message is produced.
\<close>

theorem registered_tool_raises:
  "tools_by_name [failing_search_tool] (tc_name request1) = Some failing_search_tool
   \<and> last (messages (state_with [request1])) = AIMessage [] [request1]
   \<and> LangGraphAgent_tool_call [failing_search_tool] (state_with [request1]) =
       (Inl (OtherException ''RatelimitException''), [request1])"
  by (simp add: tools_by_name_def failing_search_tool_def request1_def state_with_def
        LangGraphAgent_tool_call_def)

text \<open>
  C6. A request whose name is not a key of the tool registry makes the node raise:
  it returns no command, so no tool message for any request of the batch; the
  requests it invoked before are a prefix of the batch, each invoked once, and the
  unknown request is not among them. When the requests before it resolve and return,
  the exception is the \<^verbatim>\<open>KeyError\<close> of the unknown name, raised when the registry is
  read, and exactly those requests were invoked.
\<close>

theorem unknown_tool_is_fatal:
  assumes "messages state \<noteq> []" and "last (messages state) = AIMessage c tcs"
    and "tc \<in> set tcs" and "tools_by_name tools (tc_name tc) = None"
  shows "(\<exists>e invoked rest.
            LangGraphAgent_tool_call tools state = (Inl e, invoked)
            \<and> tcs = invoked @ rest \<and> tc \<notin> set invoked
            \<and> (\<forall>q \<in> set invoked. tools_by_name tools (tc_name q) \<noteq> None))
       \<and> (\<forall>pre post.
            tcs = pre @ tc # post
            \<and> (\<forall>p \<in> set pre. \<exists>t r. tools_by_name tools (tc_name p) = Some t
                                   \<and> ainvoke t (tc_args p) = Inr r) \<longrightarrow>
            LangGraphAgent_tool_call tools state = (Inl (KeyError (tc_name tc)), pre))"
proof (intro conjI allI impI)
  from tool_loop_unknown_fails [of tc tcs "tools_by_name tools" "[]", OF assms(3,4)]
  obtain e invoked where
    run: "tool_loop (tools_by_name tools) tcs [] = (Inl e, invoked)"
    by blast
  from tool_loop_invoked [OF run] obtain rest where
    inv: "tcs = invoked @ rest" "\<forall>q \<in> set invoked. tools_by_name tools (tc_name q) \<noteq> None"
    by blast
  with assms(4) have "tc \<notin> set invoked" by auto
  with run inv show "\<exists>e invoked rest.
            LangGraphAgent_tool_call tools state = (Inl e, invoked)
            \<and> tcs = invoked @ rest \<and> tc \<notin> set invoked
            \<and> (\<forall>q \<in> set invoked. tools_by_name tools (tc_name q) \<noteq> None)"
    unfolding LangGraphAgent_tool_call_unfold [OF assms(1,2)] by auto
next
  fix pre post
  assume h: "tcs = pre @ tc # post
            \<and> (\<forall>p \<in> set pre. \<exists>t r. tools_by_name tools (tc_name p) = Some t
                                   \<and> ainvoke t (tc_args p) = Inr r)"
  then have "tool_loop (tools_by_name tools) tcs [] = (Inl (KeyError (tc_name tc)), pre)"
    using tool_loop_unknown [of pre "tools_by_name tools" tc post "[]"] assms(4) by simp
  then show "LangGraphAgent_tool_call tools state = (Inl (KeyError (tc_name tc)), pre)"
    unfolding LangGraphAgent_tool_call_unfold [OF assms(1,2)] by simp
qed

theorem unknown_tool_is_fatal_witness:
  "messages (state_with [request1, unknown_request, request2]) \<noteq> []
   \<and> last (messages (state_with [request1, unknown_request, request2])) =
       AIMessage [] [request1, unknown_request, request2]
   \<and> unknown_request \<in> set [request1, unknown_request, request2]
   \<and> tools_by_name [search_tool] (tc_name unknown_request) = None
   \<and> tools_by_name [search_tool] (tc_name request1) = Some search_tool
   \<and> ainvoke search_tool (tc_args request1) = Inr ''15 C, cloudy''
   \<and> LangGraphAgent_tool_call [search_tool] (state_with [request1, unknown_request, request2]) =
       (Inl (KeyError ''get_weather''), [request1])"
proof -
  let ?tcs = "[request1, unknown_request, request2]"
  have a: "messages (state_with ?tcs) \<noteq> []" by (simp add: state_with_def)
  have b: "last (messages (state_with ?tcs)) = AIMessage [] ?tcs" by (simp add: state_with_def)
  have m: "unknown_request \<in> set ?tcs" by simp
  have u: "tools_by_name [search_tool] (tc_name unknown_request) = None"
    by (simp add: tools_by_name_def search_tool_def unknown_request_def)
  have r1: "tools_by_name [search_tool] (tc_name request1) = Some search_tool"
    by (simp add: tools_by_name_def search_tool_def request1_def)
  have i1: "ainvoke search_tool (tc_args request1) = Inr ''15 C, cloudy''"
    by (simp add: search_tool_def)
  have d: "?tcs = [request1] @ unknown_request # [request2]" by simp
  have p: "\<forall>p \<in> set [request1]. \<exists>t r. tools_by_name [search_tool] (tc_name p) = Some t
                                   \<and> ainvoke t (tc_args p) = Inr r"
    using r1 i1 by simp
  from unknown_tool_is_fatal [OF a b m u] d p
  have "LangGraphAgent_tool_call [search_tool] (state_with ?tcs) =
          (Inl (KeyError (tc_name unknown_request)), [request1])"
    by blast
  then have e: "LangGraphAgent_tool_call [search_tool] (state_with ?tcs) =
          (Inl (KeyError ''get_weather''), [request1])"
    by (simp add: unknown_request_def)
  from a b m u r1 i1 e show ?thesis by blast
qed

section \<open>The turn\<close>

lemma create_graph_memo:
  "(case agent_graph a of None \<Rightarrow> create_graph env a | Some g \<Rightarrow> (Inr g, a)) = create_graph env a"
  by (simp add: create_graph_def split: option.splits)

lemma join_prefixed_nonempty:
  "results \<noteq> [] \<Longrightarrow> join sep (map (\<lambda>res. ''* '' @ memory res) results) \<noteq> []"
proof (cases results)
  case Nil
  then show "results \<noteq> [] \<Longrightarrow> ?thesis" by simp
next
  case (Cons r rs)
  then show ?thesis by (cases rs) simp_all
qed

text \<open>The steps of \<^verbatim>\<open>get_response\<close> once the graph and the memory client are there.\<close>

lemma get_response_empty:
  assumes "create_graph env a = (Inr g, a1)"
    and "long_term_memory_client env a1 = (Inr c, a2)"
  shows "get_response env a [] session_id user_id = (Inl IndexError, a2, [])"
  using assms by (simp add: get_response_def create_graph_memo)

text \<open>When building the graph fails, that failure is what an empty list meets first.\<close>

lemma get_response_empty_no_database:
  "get_response env_no_database agent0 [] ''session-1'' ''user-1'' =
     (Inl (OtherException ''OperationalError''), agent0, [])"
  by (simp add: get_response_def create_graph_def env_no_database_def env_with_def agent0_def)

lemma get_response_search_raises:
  assumes "create_graph env a = (Inr g, a1)"
    and "long_term_memory_client env a1 = (Inr c, a2)"
    and "msgs \<noteq> []"
    and "search env c user_id (content (last msgs)) = Inl e"
  shows "get_response env a msgs session_id user_id =
           (Inl e, a2, [MemorySearch user_id (content (last msgs))])"
  using assms by (cases msgs) (simp_all add: get_response_def create_graph_memo Let_def del: last.simps)

lemma get_response_search_returns:
  assumes "create_graph env a = (Inr g, a1)"
    and "long_term_memory_client env a1 = (Inr c, a2)"
    and "msgs \<noteq> []"
    and "search env c user_id (content (last msgs)) = Inr relevant_memory"
  shows "get_response env a msgs session_id user_id =
     (let results = (case relevant_memory of None \<Rightarrow> [] | Some rs \<Rightarrow> rs);
          context = (if results = [] then no_memory
                     else join [CHR 0x0A] (map (\<lambda>res. ''* '' @ memory res) results));
          input_state = \<lparr>messages = dump_messages env msgs, long_term_memory = context\<rparr>
      in case graph_ainvoke env g input_state session_id of
           Inl e \<Rightarrow>
             (Inl e, a2,
              [MemorySearch user_id (content (last msgs)), GraphRun input_state session_id])
         | Inr final_messages \<Rightarrow>
             (Inr (process_messages final_messages), a2,
              [MemorySearch user_id (content (last msgs)), GraphRun input_state session_id,
               MemoryUpdateTask user_id final_messages]))"
proof -
  obtain m ms where msgs: "msgs = m # ms"
    using assms(3) by (cases msgs) auto
  have E: "(case agent_graph a of None \<Rightarrow> create_graph env a | Some g \<Rightarrow> (Inr g, a))
             = (Inr g, a1)"
    unfolding create_graph_memo by (rule assms(1))
  from assms(4) have s: "search env c user_id (content (last (m # ms))) = Inr relevant_memory"
    by (simp only: msgs)
  show ?thesis
  proof (cases "(case relevant_memory of None \<Rightarrow> [] | Some rs \<Rightarrow> rs) = []")
    case True
    then show ?thesis
      unfolding get_response_def E msgs using assms(2) s
      by (simp add: Let_def split: sum.split del: last.simps)
  next
    case False
    from join_prefixed_nonempty [OF False, of "[CHR 0x0A]"] False show ?thesis
      unfolding get_response_def E msgs using assms(2) s
      by (simp add: Let_def split: sum.split del: last.simps)
  qed
qed

lemmas turn_simps =
  get_response_def create_graph_def long_term_memory_client_def env_with_def agent0_def
  agent_ready_def user_turn_def process_messages_def no_memory_def

text \<open>
  C7. The memory search raises and \<^verbatim>\<open>get_response\<close> raises with it: the turn is
  aborted after the search, the graph is not run and no response is returned. The
  search is awaited with no handler around it, unlike the memory update, which
  \<^verbatim>\<open>_update_long_term_memory\<close> wraps in \<^verbatim>\<open>try\<close> and \<^verbatim>\<open>except Exception\<close>.
\<close>

theorem memory_search_error_propagates:
  "get_response (env_with (Inl (OtherException ''connection refused''))) agent0 user_turn
     ''session-1'' ''user-1'' =
   (Inl (OtherException ''connection refused''), agent_ready,
    [MemorySearch ''user-1'' ''hello''])"
  by (simp add: turn_simps)

text \<open>
  C8. In a turn that reaches the search (graph and memory client are there, the
  message list is not empty), when the search returns no results, whether the key
  \<^verbatim>\<open>"results"\<close> is missing or its list is empty, the context of the initial state is
  the sentinel \<^verbatim>\<open>No relevant memory found.\<close>; when it returns results, the context is
  their texts, each after \<^verbatim>\<open>"* "\<close>, joined by newlines. In both cases the memory step
  raises nothing: the result of the turn is that of the graph run on that state.
\<close>

theorem memory_context_injected:
  assumes "create_graph env a = (Inr g, a1)"
    and "long_term_memory_client env a1 = (Inr c, a2)"
    and "msgs \<noteq> []"
    and "search env c user_id (content (last msgs)) = Inr relevant_memory"
  shows "let turn = (\<lambda>context.
               let input_state =
                     \<lparr>messages = dump_messages env msgs, long_term_memory = context\<rparr>
               in case graph_ainvoke env g input_state session_id of
                    Inl e \<Rightarrow>
                      (Inl e, a2,
                       [MemorySearch user_id (content (last msgs)),
                        GraphRun input_state session_id])
                  | Inr final_messages \<Rightarrow>
                      (Inr (process_messages final_messages), a2,
                       [MemorySearch user_id (content (last msgs)),
                        GraphRun input_state session_id,
                        MemoryUpdateTask user_id final_messages]))
         in no_memory = ''No relevant memory found.''
            \<and> (relevant_memory = None \<or> relevant_memory = Some [] \<longrightarrow>
                 get_response env a msgs session_id user_id = turn no_memory)
            \<and> (\<forall>rs. relevant_memory = Some rs \<and> rs \<noteq> [] \<longrightarrow>
                 get_response env a msgs session_id user_id =
                   turn (join [CHR 0x0A] (map (\<lambda>res. ''* '' @ memory res) rs)))"
proof -
  note R = get_response_search_returns [OF assms, of session_id, unfolded Let_def]
  show ?thesis
    unfolding Let_def
  proof (intro conjI impI allI)
    show "no_memory = ''No relevant memory found.''"
      by (simp add: no_memory_def)
  next
    assume "relevant_memory = None \<or> relevant_memory = Some []"
    then have "(case relevant_memory of None \<Rightarrow> [] | Some rs \<Rightarrow> rs) = []"
      by auto
    with R show "get_response env a msgs session_id user_id =
      (case graph_ainvoke env g
              \<lparr>messages = dump_messages env msgs, long_term_memory = no_memory\<rparr> session_id of
         Inl e \<Rightarrow>
           (Inl e, a2,
            [MemorySearch user_id (content (last msgs)),
             GraphRun \<lparr>messages = dump_messages env msgs, long_term_memory = no_memory\<rparr>
               session_id])
       | Inr final_messages \<Rightarrow>
           (Inr (process_messages final_messages), a2,
            [MemorySearch user_id (content (last msgs)),
             GraphRun \<lparr>messages = dump_messages env msgs, long_term_memory = no_memory\<rparr>
               session_id,
             MemoryUpdateTask user_id final_messages]))"
      by simp
  next
    fix rs
    assume "relevant_memory = Some rs \<and> rs \<noteq> []"
    with R show "get_response env a msgs session_id user_id =
      (case graph_ainvoke env g
              \<lparr>messages = dump_messages env msgs,
                 long_term_memory = join [CHR 0x0A] (map (\<lambda>res. ''* '' @ memory res) rs)\<rparr>
              session_id of
         Inl e \<Rightarrow>
           (Inl e, a2,
            [MemorySearch user_id (content (last msgs)),
             GraphRun \<lparr>messages = dump_messages env msgs,
                       long_term_memory =
                         join [CHR 0x0A] (map (\<lambda>res. ''* '' @ memory res) rs)\<rparr>
               session_id])
       | Inr final_messages \<Rightarrow>
           (Inr (process_messages final_messages), a2,
            [MemorySearch user_id (content (last msgs)),
             GraphRun \<lparr>messages = dump_messages env msgs,
                       long_term_memory =
                         join [CHR 0x0A] (map (\<lambda>res. ''* '' @ memory res) rs)\<rparr>
               session_id,
             MemoryUpdateTask user_id final_messages]))"
      by (simp split: sum.split)
  qed
qed

theorem memory_context_injected_witness:
  "create_graph (env_with (Inr (Some []))) agent0 = (Inr (), agent0\<lparr>agent_graph := Some ()\<rparr>)
   \<and> long_term_memory_client (env_with (Inr (Some []))) (agent0\<lparr>agent_graph := Some ()\<rparr>) =
       (Inr (), agent_ready)
   \<and> user_turn \<noteq> []
   \<and> search (env_with (Inr (Some []))) () ''user-1'' (content (last user_turn)) = Inr (Some [])
   \<and> get_response (env_with (Inr (Some []))) agent0 user_turn ''session-1'' ''user-1'' =
       (Inr [\<lparr>role = ''user'', content = ''hello''\<rparr>,
             \<lparr>role = ''assistant'', content = ''No relevant memory found.''\<rparr>],
        agent_ready,
        [MemorySearch ''user-1'' ''hello'',
         GraphRun \<lparr>messages = [HumanMessage ''hello''],
                   long_term_memory = ''No relevant memory found.''\<rparr> ''session-1'',
         MemoryUpdateTask ''user-1''
           [HumanMessage ''hello'', AIMessage ''No relevant memory found.'' []]])
   \<and> fst (get_response
             (env_with (Inr (Some [\<lparr>memory = ''likes tea''\<rparr>, \<lparr>memory = ''lives in Paris''\<rparr>])))
             agent_ready user_turn ''session-1'' ''user-1'') =
       Inr [\<lparr>role = ''user'', content = ''hello''\<rparr>,
            \<lparr>role = ''assistant'',
             content = ''* likes tea'' @ [CHR 0x0A] @ ''* lives in Paris''\<rparr>]"
proof -
  let ?env = "env_with (Inr (Some []))"
  let ?facts = "[\<lparr>memory = ''likes tea''\<rparr>, \<lparr>memory = ''lives in Paris''\<rparr>]"
  let ?env2 = "env_with (Inr (Some ?facts))"
  have g: "create_graph ?env agent0 = (Inr (), agent0\<lparr>agent_graph := Some ()\<rparr>)"
    by (simp add: turn_simps)
  have c: "long_term_memory_client ?env (agent0\<lparr>agent_graph := Some ()\<rparr>) = (Inr (), agent_ready)"
    by (simp add: turn_simps)
  have n: "user_turn \<noteq> []" by (simp add: user_turn_def)
  have s: "search ?env () ''user-1'' (content (last user_turn)) = Inr (Some [])"
    by (simp add: env_with_def)
  have g2: "create_graph ?env2 agent_ready = (Inr (), agent_ready)"
    by (simp add: turn_simps)
  have c2: "long_term_memory_client ?env2 agent_ready = (Inr (), agent_ready)"
    by (simp add: turn_simps)
  have s2: "search ?env2 () ''user-1'' (content (last user_turn)) = Inr (Some ?facts)"
    by (simp add: env_with_def)
  from memory_context_injected [OF g c n s, of "''session-1''"]
  have r1: "get_response ?env agent0 user_turn ''session-1'' ''user-1'' =
       (Inr [\<lparr>role = ''user'', content = ''hello''\<rparr>,
             \<lparr>role = ''assistant'', content = ''No relevant memory found.''\<rparr>],
        agent_ready,
        [MemorySearch ''user-1'' ''hello'',
         GraphRun \<lparr>messages = [HumanMessage ''hello''],
                   long_term_memory = ''No relevant memory found.''\<rparr> ''session-1'',
         MemoryUpdateTask ''user-1''
           [HumanMessage ''hello'', AIMessage ''No relevant memory found.'' []]])"
    by (simp add: Let_def env_with_def user_turn_def process_messages_def no_memory_def)
  from memory_context_injected [OF g2 c2 n s2, of "''session-1''"]
  have r2: "fst (get_response ?env2 agent_ready user_turn ''session-1'' ''user-1'') =
       Inr [\<lparr>role = ''user'', content = ''hello''\<rparr>,
            \<lparr>role = ''assistant'',
             content = ''* likes tea'' @ [CHR 0x0A] @ ''* lives in Paris''\<rparr>]"
    by (simp add: Let_def env_with_def user_turn_def process_messages_def no_memory_def)
  from g c n s r1 r2 show ?thesis by blast
qed

text \<open>
  C9. The message list has to be non-empty. With an empty list \<^verbatim>\<open>get_response\<close>
  never returns a response and starts neither the search nor the graph; once the
  graph and the memory client are there, what it raises is the \<^verbatim>\<open>IndexError\<close> of
  \<^verbatim>\<open>messages[-1]\<close>. With a non-empty list the subscript succeeds: the search is
  started with the text of the last message as its query.
\<close>

theorem empty_message_list_fails:
  "(\<exists>e a'. get_response env a [] session_id user_id = (Inl e, a', []))
   \<and> (create_graph env a = (Inr g, a1) \<and> long_term_memory_client env a1 = (Inr c, a2) \<longrightarrow>
        get_response env a [] session_id user_id = (Inl IndexError, a2, [])
        \<and> (msgs \<noteq> [] \<longrightarrow>
             (\<exists>res evs. get_response env a msgs session_id user_id =
                          (res, a2, MemorySearch user_id (content (last msgs)) # evs))))"
proof (intro conjI impI)
  show "\<exists>e a'. get_response env a [] session_id user_id = (Inl e, a', [])"
    by (auto simp: get_response_def split: prod.splits sum.splits option.splits)
next
  assume h: "create_graph env a = (Inr g, a1) \<and> long_term_memory_client env a1 = (Inr c, a2)"
  then show "get_response env a [] session_id user_id = (Inl IndexError, a2, [])"
    by (simp add: get_response_empty)
next
  assume h: "create_graph env a = (Inr g, a1) \<and> long_term_memory_client env a1 = (Inr c, a2)"
    and ne: "msgs \<noteq> []"
  from h have g: "create_graph env a = (Inr g, a1)"
    and c: "long_term_memory_client env a1 = (Inr c, a2)" by simp_all
  show "\<exists>res evs. get_response env a msgs session_id user_id =
                    (res, a2, MemorySearch user_id (content (last msgs)) # evs)"
  proof (cases "search env c user_id (content (last msgs))")
    case (Inl e)
    from get_response_search_raises [OF g c ne Inl] show ?thesis by simp
  next
    case (Inr relevant_memory)
    from get_response_search_returns [OF g c ne Inr, of session_id] show ?thesis
      by (auto simp: Let_def split: sum.splits)
  qed
qed

theorem empty_message_list_fails_witness:
  "create_graph (env_with (Inr (Some []))) agent0 = (Inr (), agent0\<lparr>agent_graph := Some ()\<rparr>)
   \<and> long_term_memory_client (env_with (Inr (Some []))) (agent0\<lparr>agent_graph := Some ()\<rparr>) =
       (Inr (), agent_ready)
   \<and> get_response (env_with (Inr (Some []))) agent0 [] ''session-1'' ''user-1'' =
       (Inl IndexError, agent_ready, [])
   \<and> user_turn \<noteq> []
   \<and> (\<exists>res evs. get_response (env_with (Inr (Some []))) agent0 user_turn ''session-1'' ''user-1'' =
                    (res, agent_ready, MemorySearch ''user-1'' ''hello'' # evs))"
proof -
  let ?env = "env_with (Inr (Some []))"
  have g: "create_graph ?env agent0 = (Inr (), agent0\<lparr>agent_graph := Some ()\<rparr>)"
    by (simp add: turn_simps)
  have c: "long_term_memory_client ?env (agent0\<lparr>agent_graph := Some ()\<rparr>) = (Inr (), agent_ready)"
    by (simp add: turn_simps)
  have n: "user_turn \<noteq> []" by (simp add: user_turn_def)
  note T = empty_message_list_fails
    [of ?env agent0 "''session-1''" "''user-1''" "()" "agent0\<lparr>agent_graph := Some ()\<rparr>" "()"
        agent_ready user_turn]
  from T g c have e: "get_response ?env agent0 [] ''session-1'' ''user-1'' =
       (Inl IndexError, agent_ready, [])"
    by blast
  from T g c n have "\<exists>res evs. get_response ?env agent0 user_turn ''session-1'' ''user-1'' =
                    (res, agent_ready, MemorySearch ''user-1'' (content (last user_turn)) # evs)"
    by blast
  then have q: "\<exists>res evs. get_response ?env agent0 user_turn ''session-1'' ''user-1'' =
                    (res, agent_ready, MemorySearch ''user-1'' ''hello'' # evs)"
    by (simp add: user_turn_def)
  from g c e n q show ?thesis by blast
qed

end
